theory Spec2Isabelle
  imports Main "HOL-Library.Word"
begin

unbundle bit_operations_syntax

section \<open>Satellite subframes (subframe.c)\<close>

text \<open>
  C's \<open>unsigned int\<close> is a 32-bit word: \<open>>>\<close> is \<open>drop_bit\<close>, \<open><<\<close> is
  \<open>push_bit\<close>, \<open>&\<close>, \<open>|\<close>, \<open>^\<close> and \<open>~\<close> are \<open>AND\<close>, \<open>OR\<close>, \<open>XOR\<close> and
  \<open>NOT\<close>. The array \<open>words[]\<close> is a list; the functions assume ten elements and
  update it in place, so the model returns the updated list.
\<close>

type_synonym u32 = "32 word"

text \<open>
  \<open>gpsd_report(level, format, args...)\<close> writes to the logging sink. The model keeps
  the calls in order: the level, a short name for the format string and the arguments.
\<close>

datatype log_level = LOG_ERROR | LOG_WARN | LOG_INF | LOG_PROG | LOG_IO

datatype report = Report log_level string "u32 list"

text \<open>
  The part of \<open>session->context\<close> that subframe.c touches. The struct is declared in
  gpsd.h; the field types are read off the casts of the assignments: \<open>valid\<close> is an
  \<open>int\<close> of flag bits, \<open>leap_seconds\<close> an \<open>int\<close> (read it with \<open>sint\<close>),
  \<open>gps_week\<close> an \<open>unsigned short\<close>.
\<close>

record gps_context_t =
  valid :: "32 word"
  leap_seconds :: "32 word"
  gps_week :: "16 word"

subsection \<open>gpsd_interpret_subframe: the cases of the switch\<close>

definition subframe1 :: "gps_context_t \<Rightarrow> u32 \<Rightarrow> u32 list \<Rightarrow> gps_context_t \<times> report list" where
  "subframe1 c svid words =
    (let l2 = drop_bit 10 (words ! 2) AND 0x000003;
         ura = drop_bit 8 (words ! 2) AND 0x00000F;
         hlth = drop_bit 2 (words ! 2) AND 0x00003F;
         iodc = words ! 2 AND 0x000003;
         l2p = drop_bit 23 (words ! 3) AND 0x000001;
         tgd = words ! 6 AND 0x0000FF;
         toc = words ! 7 AND 0x00FFFF;
         af2 = drop_bit 16 (words ! 8) AND 0x0FF;
         af1 = words ! 8 AND 0x00FFFF;
         af0 = drop_bit 1 (words ! 9) AND 0x03FFFFF;
         iodc = push_bit 8 iodc;
         iodc = iodc + (drop_bit 16 (words ! 7) AND 0x00FF);
         c = c\<lparr>gps_week := ucast (drop_bit 14 (words ! 2) AND 0x03ff)\<rparr>
     in (c, [Report LOG_PROG ''SF:1''
               [svid, ucast (gps_week c), iodc, l2, ura, hlth, l2p, tgd, toc, af2, af1, af0]]))"

definition subframe2 :: "gps_context_t \<Rightarrow> u32 \<Rightarrow> u32 list \<Rightarrow> gps_context_t \<times> report list" where
  "subframe2 c svid words =
    (let iode = drop_bit 16 (words ! 2) AND 0x00FF;
         crs = words ! 2 AND 0x00FFFF;
         deltan = drop_bit 8 (words ! 3) AND 0x00FFFF;
         m0 = words ! 3 AND 0x0000FF;
         m0 = push_bit 24 m0;
         m0 = m0 + (words ! 4 AND 0x00FFFFFF);
         cuc = drop_bit 8 (words ! 5) AND 0x00FFFF;
         e = words ! 5 AND 0x0000FF;
         e = push_bit 24 e;
         e = e + (words ! 6 AND 0x00FFFFFF);
         cus = drop_bit 8 (words ! 7) AND 0x00FFFF;
         sqrta = words ! 7 AND 0x0000FF;
         sqrta = push_bit 24 sqrta;
         sqrta = sqrta + (words ! 8 AND 0x00FFFFFF);
         toe = drop_bit 8 (words ! 9) AND 0x00FFFF;
         fit = drop_bit 7 (words ! 9) AND 0x000001;
         aodo = drop_bit 2 (words ! 9) AND 0x00001F
     in (c, [Report LOG_PROG ''SF:2''
               [svid, iode, crs, deltan, m0, cuc, e, cus, sqrta, toe, fit, aodo]]))"

definition subframe3 :: "gps_context_t \<Rightarrow> u32 \<Rightarrow> u32 list \<Rightarrow> gps_context_t \<times> report list" where
  "subframe3 c svid words =
    (let cic = drop_bit 8 (words ! 2) AND 0x00FFFF;
         om0 = words ! 2 AND 0x0000FF;
         om0 = push_bit 24 om0;
         om0 = om0 + (words ! 3 AND 0x00FFFFFF);
         cis = drop_bit 8 (words ! 4) AND 0x00FFFF;
         i0 = words ! 4 AND 0x0000FF;
         i0 = push_bit 24 i0;
         i0 = i0 + (words ! 5 AND 0x00FFFFFF);
         crc = drop_bit 8 (words ! 6) AND 0x00FFFF;
         om = words ! 6 AND 0x0000FF;
         om = push_bit 24 om;
         om = om + (words ! 7 AND 0x00FFFFFF);
         omd = words ! 8 AND 0x00FFFFFF;
         iode = drop_bit 16 (words ! 9 AND 0xFF0000);
         iote = drop_bit 2 (words ! 9 AND 0x003FFF)
     in (c, [Report LOG_PROG ''SF:3''
               [svid, iode, iote, cic, om0, cis, i0, crc, om, omd]]))"

text \<open>Page 55 of subframe 4: the 22 bytes of the system message, in the order copied.\<close>

definition page55 :: "u32 list \<Rightarrow> report list" where
  "page55 words =
    [Report LOG_INF ''gps system message''
      [drop_bit 8 (words ! 2) AND 0xff, words ! 2 AND 0xff,
       drop_bit 16 (words ! 3) AND 0xff, drop_bit 8 (words ! 3) AND 0xff, words ! 3 AND 0xff,
       drop_bit 16 (words ! 4) AND 0xff, drop_bit 8 (words ! 4) AND 0xff, words ! 4 AND 0xff,
       drop_bit 16 (words ! 5) AND 0xff, drop_bit 8 (words ! 5) AND 0xff, words ! 5 AND 0xff,
       drop_bit 16 (words ! 6) AND 0xff, drop_bit 8 (words ! 6) AND 0xff, words ! 6 AND 0xff,
       drop_bit 16 (words ! 7) AND 0xff, drop_bit 8 (words ! 7) AND 0xff, words ! 7 AND 0xff,
       drop_bit 16 (words ! 8) AND 0xff, drop_bit 8 (words ! 8) AND 0xff, words ! 8 AND 0xff,
       drop_bit 16 (words ! 9) AND 0xff, drop_bit 8 (words ! 9) AND 0xff]]"

text \<open>
  Page 56 of subframe 4: the leap seconds. \<open>LEAP_SECONDS\<close> (timebase.h) and
  \<open>LEAP_SECOND_VALID\<close> (gpsd.h) are macros declared outside the files at hand: they
  are parameters. \<open>LEAP_SECONDS > leap\<close> compares an \<open>int\<close> constant with an
  \<open>unsigned int\<close>, so as unsigned.
\<close>

definition page56 :: "u32 \<Rightarrow> 32 word \<Rightarrow> gps_context_t \<Rightarrow> u32 list \<Rightarrow> gps_context_t \<times> report list" where
  "page56 LEAP_SECONDS LEAP_SECOND_VALID c words =
    (let leap = drop_bit 16 (words ! 8 AND 0xff0000);
         wnlsf = drop_bit 8 (words ! 8 AND 0x00ff00);
         dn = words ! 8 AND 0x0000FF;
         lsf = drop_bit 16 (words ! 9 AND 0xff0000)
     in if leap < LEAP_SECONDS
        then (c\<lparr>valid := valid c AND NOT LEAP_SECOND_VALID, leap_seconds := LEAP_SECONDS\<rparr>,
              [Report LOG_ERROR ''Invalid leap_seconds'' [leap]])
        else (c\<lparr>valid := valid c OR LEAP_SECOND_VALID, leap_seconds := leap\<rparr>,
              Report LOG_INF ''leap-seconds'' [leap, lsf, wnlsf, dn] #
              (if leap \<noteq> lsf then [Report LOG_PROG ''leap-second change coming'' []] else [])))"

definition subframe4 ::
  "u32 \<Rightarrow> 32 word \<Rightarrow> gps_context_t \<Rightarrow> u32 \<Rightarrow> u32 \<Rightarrow> u32 list \<Rightarrow> gps_context_t \<times> report list" where
  "subframe4 LEAP_SECONDS LEAP_SECOND_VALID c pageid data_id words =
    (let r = (if pageid \<in> {1, 6, 11, 12, 14, 15, 16, 19, 20, 21, 22, 23, 24} then (c, [])
              else if pageid \<in> {2, 3, 4, 5, 7, 8, 9, 10} then (c, [])
              else if pageid = 13 then (c, [])
              else if pageid = 17 then (c, [])
              else if pageid = 18 then (c, [])
              else if pageid = 25 then (c, [])
              else if pageid = 55 then (c, page55 words)
              else if pageid = 56 then page56 LEAP_SECONDS LEAP_SECOND_VALID c words
              else (c, []))
     in (fst r, Report LOG_PROG ''SF:4'' [pageid, data_id] # snd r))"

definition subframe5 :: "gps_context_t \<Rightarrow> u32 \<Rightarrow> u32 \<Rightarrow> u32 list \<Rightarrow> gps_context_t \<times> report list" where
  "subframe5 c pageid data_id words =
    (if pageid < 25
     then (let e = words ! 2 AND 0x00FFFF;
               toa = drop_bit 16 (words ! 3 AND 0xFF0000);
               deltai = words ! 3 AND 0x00FFFF;
               svh = words ! 4 AND 0x0000FF;
               sqrtA = words ! 5 AND 0xFFFFFF;
               Omega0 = words ! 6 AND 0xFFFFFF;
               omega = words ! 7 AND 0xFFFFFF;
               M0 = words ! 8 AND 0xFFFFFF
           in (c, [Report LOG_PROG ''SF:5 almanac''
                     [pageid, data_id, e, svh, toa, deltai, sqrtA, Omega0, omega, M0]]))
     else (c, [Report LOG_PROG ''SF:5'' [pageid, data_id]]))"

subsection \<open>gpsd_interpret_subframe\<close>

text \<open>
  The result is the context, the array (word 0 is flipped back when its preamble is the
  inverted one) and the reports written.
\<close>

definition gpsd_interpret_subframe ::
  "u32 \<Rightarrow> 32 word \<Rightarrow> gps_context_t \<Rightarrow> u32 \<Rightarrow> u32 list \<Rightarrow> gps_context_t \<times> u32 list \<times> report list" where
  "gpsd_interpret_subframe LEAP_SECONDS LEAP_SECOND_VALID c svid words0 =
    (let dump = Report LOG_IO ''gpsd_interpret_subframe'' (svid # words0);
         preamble0 = drop_bit 16 (words0 ! 0) AND 0x0ff;
         preamble = (if preamble0 = 0x8b then preamble0 XOR 0xff else preamble0);
         words = (if preamble0 = 0x8b then words0[0 := words0 ! 0 XOR 0xffffff] else words0)
     in if preamble \<noteq> 0x74
        then (c, words, [dump, Report LOG_WARN ''gpsd_interpret_subframe bad preamble''
                                 [preamble, words ! 0]])
        else
          (let tow17 = drop_bit 7 (words ! 1) AND 0x01FFFF;
               subframe = drop_bit 2 (words ! 1) AND 0x07;
               alert = drop_bit 6 (words ! 1) AND 0x01;
               antispoof = drop_bit 6 (words ! 1) AND 0x01;
               header = Report LOG_PROG ''Subframe'' [subframe, svid, tow17, alert, antispoof];
               pageid = drop_bit 16 (words ! 2 AND 0x3F0000);
               data_id = drop_bit 22 (words ! 2) AND 0x3;
               r = (if subframe = 1 then subframe1 c svid words
                    else if subframe = 2 then subframe2 c svid words
                    else if subframe = 3 then subframe3 c svid words
                    else if subframe = 4
                      then subframe4 LEAP_SECONDS LEAP_SECOND_VALID c pageid data_id words
                    else if subframe = 5 then subframe5 c pageid data_id words
                    else (c, []))
           in (fst r, words, dump # header # snd r)))"

subsection \<open>gpsd_interpret_subframe_raw\<close>

text \<open>
  The inversion step of the loop body: when D30* (bit 30) is set, the 24 data bits are
  flipped back (\<open>words[i] ^= 0x3fffffc0\<close>); otherwise the word stays as it is.
\<close>

definition uninvert :: "u32 \<Rightarrow> u32" where
  "uninvert w = (if w AND 0x40000000 \<noteq> 0 then w XOR 0x3fffffc0 else w)"

text \<open>
  \<open>isgps_parity\<close> is a function of another file of the daemon: it is a parameter.
  The loop over the words 1 to 9 stops at the first word whose recomputed parity is not
  the one transmitted: \<open>Inl\<close> holds the array as it is then and the report.
\<close>

fun parity_loop :: "(u32 \<Rightarrow> u32) \<Rightarrow> nat list \<Rightarrow> u32 list \<Rightarrow> (u32 list \<times> report) + u32 list" where
  "parity_loop isgps_parity [] words = Inr words"
| "parity_loop isgps_parity (i # is) words0 =
    (let words = words0[i := uninvert (words0 ! i)];
         parity = isgps_parity (words ! i)
     in if parity \<noteq> (words ! i AND 0x3f)
        then Inl (words, Report LOG_IO ''gpsd_interpret_subframe_raw parity fail''
                           [of_nat i, parity, words ! i AND 0x1])
        else parity_loop isgps_parity is (words[i := drop_bit 6 (words ! i) AND 0xffffff]))"

text \<open>The result: the value returned, the context, the array and the reports.\<close>

record raw_result =
  retval :: int
  ctx :: gps_context_t
  words_out :: "u32 list"
  reports :: "report list"

definition gpsd_interpret_subframe_raw ::
  "(u32 \<Rightarrow> u32) \<Rightarrow> u32 \<Rightarrow> 32 word \<Rightarrow> gps_context_t \<Rightarrow> u32 \<Rightarrow> u32 list \<Rightarrow> raw_result" where
  "gpsd_interpret_subframe_raw isgps_parity LEAP_SECONDS LEAP_SECOND_VALID c svid words0 =
    (let dump = Report LOG_IO ''gpsd_interpret_subframe_raw'' words0;
         preamble = drop_bit 22 (words0 ! 0) AND 0xff
     in if preamble \<noteq> 0x8b \<and> preamble \<noteq> 0x74
        then \<lparr>retval = 0, ctx = c, words_out = words0,
              reports = [dump, Report LOG_IO ''gpsd_interpret_subframe_raw bad preamble'' [preamble]]\<rparr>
        else
          (let words = (if preamble = 0x8b then words0[0 := words0 ! 0 XOR 0x3fffffc0] else words0);
               words = words[0 := drop_bit 6 (words ! 0) AND 0xffffff]
           in case parity_loop isgps_parity [1..<10] words of
                Inl (words, r) \<Rightarrow>
                  \<lparr>retval = 0, ctx = c, words_out = words, reports = [dump, r]\<rparr>
              | Inr words \<Rightarrow>
                  (case gpsd_interpret_subframe LEAP_SECONDS LEAP_SECOND_VALID c svid words of
                     (c', words', rs) \<Rightarrow>
                       \<lparr>retval = 0, ctx = c', words_out = words', reports = dump # rs\<rparr>)))"

section \<open>The daemon protocol (libgps.c)\<close>

subsection \<open>C strings in the buffer\<close>

text \<open>
  The buffer \<open>buf\<close> is the list of the bytes before the terminating NUL that
  \<open>gps_poll\<close> writes behind the bytes read: index \<open>length buf\<close> holds that NUL, and
  what lies behind it was never written. A pointer into the buffer is an index.
  \<open>gps_unpack\<close> overwrites separators with NUL, so the list can hold NULs.
\<close>

abbreviation NUL :: char where "NUL \<equiv> CHR 0x00"
abbreviation CR :: char where "CR \<equiv> CHR 0x0D"

definition rd :: "string \<Rightarrow> nat \<Rightarrow> char option" where
  "rd buf i = (if i < length buf then Some (buf ! i)
               else if i = length buf then Some NUL else None)"

text \<open>The C string at a pointer: the bytes up to the first NUL.\<close>

definition cstr :: "string \<Rightarrow> nat \<Rightarrow> string" where
  "cstr buf p = takeWhile (\<lambda>x. x \<noteq> NUL) (drop p buf)"

text \<open>\<open>strchr(p, c)\<close> for a character \<open>c\<close> other than NUL: \<open>None\<close> is the null pointer.\<close>

definition strchr :: "string \<Rightarrow> nat \<Rightarrow> char \<Rightarrow> nat option" where
  "strchr buf p c =
    (let s = cstr buf p
     in if c \<in> set s then Some (p + length (takeWhile (\<lambda>x. x \<noteq> c) s)) else None)"

text \<open>\<open>strstr(haystack, needle)\<close>: the offset of the first occurrence.\<close>

fun strstr :: "string \<Rightarrow> string \<Rightarrow> nat option" where
  "strstr [] needle = (if needle = [] then Some 0 else None)"
| "strstr (c # cs) needle =
    (if take (length needle) (c # cs) = needle then Some 0
     else map_option Suc (strstr cs needle))"

subsection \<open>The conversions of sscanf and atoi\<close>

text \<open>\<open>isspace\<close> and \<open>isdigit\<close> in the C locale.\<close>

definition isspace :: "char \<Rightarrow> bool" where
  "isspace c = (c \<in> {CHR '' '', CHR 0x09, CHR 0x0A, CHR 0x0B, CHR 0x0C, CHR 0x0D})"

definition isdigit :: "char \<Rightarrow> bool" where
  "isdigit c = (48 \<le> (of_char c :: nat) \<and> (of_char c :: nat) \<le> 57)"

definition digits_value :: "string \<Rightarrow> int" where
  "digits_value ds = foldl (\<lambda>a c. 10 * a + (int (of_char c) - 48)) 0 ds"

text \<open>
  The value that reaches an \<open>int\<close>. \<open>atoi\<close> and the conversion \<open>%d\<close> read the digits
  with \<open>strtol\<close>, which stops at the ends of the range of a \<open>long\<close> (64 bits), and the
  result is then cut to the 32 bits of an \<open>int\<close>, as the C library of the platform does:
  a number that does not fit wraps around.
\<close>

definition c_int :: "int \<Rightarrow> int" where
  "c_int v = sint (word_of_int (max (- (2 ^ 63)) (min (2 ^ 63 - 1) v)) :: 32 word)"

text \<open>Ordinary characters of a format: each must be the next character of the input.\<close>

fun scan_lit :: "string \<Rightarrow> string \<Rightarrow> string option" where
  "scan_lit [] s = Some s"
| "scan_lit (c # cs) [] = None"
| "scan_lit (c # cs) (x # xs) = (if c = x then scan_lit cs xs else None)"

text \<open>\<open>%d\<close>: white space, an optional sign, at least one digit.\<close>

definition scan_d :: "string \<Rightarrow> (int \<times> string) option" where
  "scan_d s0 =
    (let s = dropWhile isspace s0;
         neg = (s \<noteq> [] \<and> hd s = CHR ''-'');
         s = (if s \<noteq> [] \<and> (hd s = CHR ''-'' \<or> hd s = CHR ''+'') then tl s else s);
         ds = takeWhile isdigit s
     in if ds = [] then None
        else Some (c_int (if neg then - digits_value ds else digits_value ds),
                   dropWhile isdigit s))"

text \<open>\<open>%s\<close>: white space, then the characters up to the next white space, at least one.\<close>

definition scan_s :: "string \<Rightarrow> (string \<times> string) option" where
  "scan_s s0 =
    (let s = dropWhile isspace s0;
         w = takeWhile (\<lambda>c. \<not> isspace c) s
     in if w = [] then None else Some (w, dropWhile (\<lambda>c. \<not> isspace c) s))"

text \<open>\<open>atoi\<close> converts like \<open>%d\<close> and returns 0 when there is no number.\<close>

definition atoi :: "string \<Rightarrow> int" where
  "atoi s = (case scan_d s of None \<Rightarrow> 0 | Some (v, r) \<Rightarrow> v)"

text \<open>
  A run of \<open>n\<close> conversions separated by white space (\<open>"%d %d %d"\<close>): the values
  converted before the first failure, in order. \<open>sscanf\<close> stores each value as it is
  converted, so the variables of the conversions that were not reached keep their values.
  The conversion \<open>%lf\<close> belongs to the C library and its result type \<open>'d\<close> (double) is
  left open: \<open>scan_lf\<close> is a parameter of the model.
\<close>

fun scan_run :: "(string \<Rightarrow> ('v \<times> string) option) \<Rightarrow> nat \<Rightarrow> string \<Rightarrow> 'v list \<times> string option" where
  "scan_run conv 0 s = ([], Some s)"
| "scan_run conv (Suc n) s =
    (case conv s of
       None \<Rightarrow> ([], None)
     | Some (v, r) \<Rightarrow> (case scan_run conv n r of (vs, r') \<Rightarrow> (v # vs, r')))"

text \<open>The value a variable holds after the run: the \<open>i\<close>-th value converted, if any.\<close>

definition stored :: "'v list \<Rightarrow> nat \<Rightarrow> 'v \<Rightarrow> 'v" where
  "stored vs i old = (if i < length vs then vs ! i else old)"

subsection \<open>The session\<close>

text \<open>
  \<open>struct gps_data_t\<close> and \<open>struct gps_fix_t\<close> are declared in gps.h; the fields are
  the ones \<open>gps_unpack\<close> assigns, with the types its conversions give them. \<open>gps_id\<close>
  is a pointer to a string of the heap (\<open>None\<close> is the null pointer), \<open>raw_hook\<close> says
  whether a callback is registered (the pointer is not null). An element of a satellite
  array is \<open>None\<close> when its value is indeterminate (copied from a local variable that
  was never written).
\<close>

record 'd gps_fix_t =
  time :: 'd
  mode :: int
  latitude :: 'd
  longitude :: 'd
  altitude :: 'd
  track :: 'd
  speed :: 'd
  climb :: 'd
  eph :: 'd
  epv :: 'd

record 'd gps_data_t =
  fix' :: "'d gps_fix_t"
  baudrate :: int
  stopbits :: int
  cycle :: int
  utc :: string
  epe :: 'd
  gps_id :: "string option"
  driver_mode :: int
  satellites_used :: int
  pdop :: 'd
  hdop :: 'd
  vdop :: 'd
  status :: int
  satellites :: int
  PRN :: "int option list"
  elevation :: "int option list"
  azimuth :: "int option list"
  ss :: "int option list"
  used :: "int option list"
  profiling :: int
  tag :: string
  sentence_length :: int
  d_xmit_time :: 'd
  d_recv_time :: 'd
  d_decode_time :: 'd
  poll_time :: 'd
  emit_time :: 'd
  raw_hook :: bool

text \<open>
  The bits of the value returned. The macros are defined in gps.h; the model names them
  and keeps the mask as the set of the bits that are set (\<open>changed |= X\<close> is
  \<open>insert X\<close>, 0 is the empty set).
\<close>

datatype change_bit = ALTITUDE_SET | POSERR_SET | MODE_SET | LATLON_SET | DOP_SET | STATUS_SET
  | TRACK_SET | CLIMB_SET | SPEED_SET | ONLINE_SET | SATELLITE_SET

text \<open>
  What the loops of \<open>gps_unpack\<close> carry along: the session, the local \<open>changed\<close>, and
  the strings handed to \<open>free\<close> so far.
\<close>

record 'd unpack_state =
  gpsdata :: "'d gps_data_t"
  changed :: "change_bit set"
  freed :: "string list"

text \<open>
  Where C leaves the behaviour undefined the model stops with a fault: a read behind the
  terminating NUL of the buffer, a read through the null pointer (plus one) that
  \<open>strchr\<close> returned, a write behind the end of a local array.
\<close>

datatype fault = Read_past_end | Null_pointer | Array_overflow

subsection \<open>The satellite table (case 'Y')\<close>

text \<open>A \<open>for (j = 0; j < n; j++)\<close> loop over the indices, stopping at a fault.\<close>

fun for_each :: "nat list \<Rightarrow> (nat \<Rightarrow> 's \<Rightarrow> fault + 's) \<Rightarrow> 's \<Rightarrow> fault + 's" where
  "for_each [] body s = Inr s"
| "for_each (j # js) body s =
    (case body j s of Inl f \<Rightarrow> Inl f | Inr s' \<Rightarrow> for_each js body s')"

text \<open>The five local arrays of \<open>MAXCHANNELS\<close> elements each.\<close>

record sat_arrays =
  l_PRN :: "int option list"
  l_elevation :: "int option list"
  l_azimuth :: "int option list"
  l_ss :: "int option list"
  l_used :: "int option list"

text \<open>\<open>PRN[j] = elevation[j] = azimuth[j] = ss[j] = used[j] = v\<close>-style stores at index \<open>j\<close>.\<close>

definition store_row ::
  "nat \<Rightarrow> nat \<Rightarrow> int option list \<Rightarrow> sat_arrays \<Rightarrow> fault + sat_arrays" where
  "store_row MAXCHANNELS j vs a =
    (if MAXCHANNELS \<le> j then Inl Array_overflow
     else Inr \<lparr>l_PRN = (l_PRN a)[j := vs ! 0], l_elevation = (l_elevation a)[j := vs ! 1],
               l_azimuth = (l_azimuth a)[j := vs ! 2], l_ss = (l_ss a)[j := vs ! 3],
               l_used = (l_used a)[j := vs ! 4]\<rparr>)"

text \<open>
  The second loop: \<open>sp = strchr(sp, ':') + 1\<close>, the five \<open>%d\<close> into \<open>i1\<close> to \<open>i5\<close>
  (which keep their values where a conversion fails and are indeterminate before the
  first), then the stores. The state is \<open>sp\<close>, \<open>i1\<close> to \<open>i5\<close> and the arrays.
\<close>

definition parse_row ::
  "nat \<Rightarrow> string \<Rightarrow> nat \<Rightarrow> nat \<times> int option list \<times> sat_arrays \<Rightarrow>
   fault + nat \<times> int option list \<times> sat_arrays" where
  "parse_row MAXCHANNELS buf j st =
    (case st of (sp, is, a) \<Rightarrow>
      (case strchr buf sp (CHR '':'') of
         None \<Rightarrow> Inl Null_pointer
       | Some q \<Rightarrow>
           (let sp = q + 1;
                vs = fst (scan_run scan_d 5 (cstr buf sp));
                is = map (\<lambda>i. stored (map Some vs) i (is ! i)) [0..<5]
            in case store_row MAXCHANNELS j is a of
                 Inl f \<Rightarrow> Inl f
               | Inr a' \<Rightarrow> Inr (sp, is, a'))))"

definition unpack_Y :: "nat \<Rightarrow> string \<Rightarrow> nat \<Rightarrow> 'd gps_data_t \<Rightarrow> fault + 'd gps_data_t" where
  "unpack_Y MAXCHANNELS buf sp g0 =
    (let g = g0\<lparr>satellites := atoi (cstr buf (sp + 2))\<rparr>
     in if satellites g \<noteq> 0
        then
          (let a0 = \<lparr>l_PRN = replicate MAXCHANNELS None, l_elevation = replicate MAXCHANNELS None,
                     l_azimuth = replicate MAXCHANNELS None, l_ss = replicate MAXCHANNELS None,
                     l_used = replicate MAXCHANNELS None\<rparr>
           in case for_each [0..<nat (satellites g)]
                     (\<lambda>j. store_row MAXCHANNELS j (replicate 5 (Some 0))) a0 of
                Inl f \<Rightarrow> Inl f
              | Inr a1 \<Rightarrow>
                  (case for_each [0..<nat (satellites g)] (parse_row MAXCHANNELS buf)
                          (sp, replicate 5 None, a1) of
                     Inl f \<Rightarrow> Inl f
                   | Inr (sp', is, a) \<Rightarrow>
                       Inr (g\<lparr>PRN := l_PRN a, elevation := l_elevation a,
                              azimuth := l_azimuth a, ss := l_ss a, used := l_used a\<rparr>)))
        else Inr g)"

subsection \<open>The switch on the tag of a fragment\<close>

text \<open>
  \<open>sp\<close> points at the fragment, which the loop has terminated with NUL. \<open>s\<close> is the
  fragment as a C string, \<open>s2\<close> the C string at \<open>sp + 2\<close>. The arrays \<open>utc\<close> and
  \<open>tag\<close> are taken to be long enough for what is copied into them (their sizes are
  declared in gps.h), and \<open>strdup\<close> to succeed.
\<close>

definition lf_after :: "(string \<Rightarrow> ('d \<times> string) option) \<Rightarrow> string \<Rightarrow> nat \<Rightarrow> string \<Rightarrow> 'd list" where
  "lf_after scan_lf lit n s =
    (case scan_lit lit s of None \<Rightarrow> [] | Some r \<Rightarrow> fst (scan_run scan_lf n r))"

definition d_after :: "string \<Rightarrow> nat \<Rightarrow> string \<Rightarrow> int list" where
  "d_after lit n s =
    (case scan_lit lit s of None \<Rightarrow> [] | Some r \<Rightarrow> fst (scan_run scan_d n r))"

text \<open>\<open>"B=%d %*d %*s %d"\<close>: the values stored in \<open>baudrate\<close> and \<open>stopbits\<close>.\<close>

definition scan_B :: "string \<Rightarrow> int list" where
  "scan_B s =
    (case scan_lit ''B='' s of
       None \<Rightarrow> []
     | Some r \<Rightarrow>
        (case scan_d r of
           None \<Rightarrow> []
         | Some (b, r1) \<Rightarrow>
            (case scan_d r1 of
               None \<Rightarrow> [b]
             | Some (x, r2) \<Rightarrow>
                (case scan_s r2 of
                   None \<Rightarrow> [b]
                 | Some (y, r3) \<Rightarrow> b # fst (scan_run scan_d 1 r3)))))"

text \<open>\<open>"Q=%d %lf %lf %lf"\<close>: \<open>satellites_used\<close>, then the three dilutions.\<close>

definition scan_Q :: "(string \<Rightarrow> ('d \<times> string) option) \<Rightarrow> string \<Rightarrow> int list \<times> 'd list" where
  "scan_Q scan_lf s =
    (case scan_lit ''Q='' s of
       None \<Rightarrow> ([], [])
     | Some r \<Rightarrow>
        (case scan_d r of
           None \<Rightarrow> ([], [])
         | Some (n, r1) \<Rightarrow> ([n], fst (scan_run scan_lf 3 r1))))"

text \<open>\<open>"$=%s %d %lf %lf %lf %lf %lf %lf"\<close>: the tag, the length, then six times.\<close>

definition scan_dollar ::
  "(string \<Rightarrow> ('d \<times> string) option) \<Rightarrow> string \<Rightarrow> string list \<times> int list \<times> 'd list" where
  "scan_dollar scan_lf s =
    (case scan_lit ''$='' s of
       None \<Rightarrow> ([], [], [])
     | Some r \<Rightarrow>
        (case scan_s r of
           None \<Rightarrow> ([], [], [])
         | Some (t, r1) \<Rightarrow>
            (case scan_d r1 of
               None \<Rightarrow> ([t], [], [])
             | Some (n, r2) \<Rightarrow> ([t], [n], fst (scan_run scan_lf 6 r2)))))"

definition unpack_fragment ::
  "nat \<Rightarrow> (string \<Rightarrow> ('d \<times> string) option) \<Rightarrow> string \<Rightarrow> nat \<Rightarrow> 'd unpack_state \<Rightarrow>
   fault + 'd unpack_state" where
  "unpack_fragment MAXCHANNELS scan_lf buf sp st =
    (let c = buf ! sp;
         s = cstr buf sp;
         s2 = cstr buf (sp + 2);
         g = gpsdata st;
         f = fix' g
     in
     if c = CHR ''A'' then
       (let vs = lf_after scan_lf ''A='' 1 s
        in Inr (st\<lparr>gpsdata := g\<lparr>fix' := f\<lparr>altitude := stored vs 0 (altitude f)\<rparr>\<rparr>,
                    changed := insert ALTITUDE_SET (changed st)\<rparr>))
     else if c = CHR ''B'' then
       (let vs = scan_B s
        in Inr (st\<lparr>gpsdata := g\<lparr>baudrate := stored vs 0 (baudrate g),
                                    stopbits := stored vs 1 (stopbits g)\<rparr>\<rparr>))
     else if c = CHR ''C'' then
       (let vs = d_after ''C='' 1 s
        in Inr (st\<lparr>gpsdata := g\<lparr>cycle := stored vs 0 (cycle g)\<rparr>\<rparr>))
     else if c = CHR ''D'' then
       Inr (st\<lparr>gpsdata := g\<lparr>utc := s2\<rparr>\<rparr>)
     else if c = CHR ''E'' then
       (let vs = lf_after scan_lf ''E='' 3 s
        in Inr (st\<lparr>gpsdata := g\<lparr>epe := stored vs 0 (epe g),
                                    fix' := f\<lparr>eph := stored vs 1 (eph f),
                                              epv := stored vs 2 (epv f)\<rparr>\<rparr>,
                    changed := insert POSERR_SET (changed st)\<rparr>))
     else if c = CHR ''I'' then
       Inr (st\<lparr>gpsdata := g\<lparr>gps_id := Some s2, fix' := f\<lparr>mode := atoi s2\<rparr>\<rparr>,
                 freed := (case gps_id g of None \<Rightarrow> freed st | Some old \<Rightarrow> freed st @ [old]),
                 changed := insert MODE_SET (changed st)\<rparr>)
     else if c = CHR ''M'' then
       Inr (st\<lparr>gpsdata := g\<lparr>fix' := f\<lparr>mode := atoi s2\<rparr>\<rparr>,
                 changed := insert MODE_SET (changed st)\<rparr>)
     else if c = CHR ''N'' then
       Inr (st\<lparr>gpsdata := g\<lparr>driver_mode := atoi s2\<rparr>\<rparr>)
     else if c = CHR ''P'' then
       (let vs = lf_after scan_lf ''P='' 2 s
        in Inr (st\<lparr>gpsdata := g\<lparr>fix' := f\<lparr>latitude := stored vs 0 (latitude f),
                                              longitude := stored vs 1 (longitude f)\<rparr>\<rparr>,
                    changed := insert LATLON_SET (changed st)\<rparr>))
     else if c = CHR ''Q'' then
       (let (ns, vs) = scan_Q scan_lf s
        in Inr (st\<lparr>gpsdata := g\<lparr>satellites_used := stored ns 0 (satellites_used g),
                                    pdop := stored vs 0 (pdop g), hdop := stored vs 1 (hdop g),
                                    vdop := stored vs 2 (vdop g)\<rparr>,
                    changed := insert DOP_SET (changed st)\<rparr>))
     else if c = CHR ''S'' then
       Inr (st\<lparr>gpsdata := g\<lparr>status := atoi s2\<rparr>,
                 changed := insert STATUS_SET (changed st)\<rparr>)
     else if c = CHR ''T'' then
       (let vs = lf_after scan_lf ''T='' 1 s
        in Inr (st\<lparr>gpsdata := g\<lparr>fix' := f\<lparr>track := stored vs 0 (track f)\<rparr>\<rparr>,
                    changed := insert TRACK_SET (changed st)\<rparr>))
     else if c = CHR ''U'' then
       (let vs = lf_after scan_lf ''U='' 1 s
        in Inr (st\<lparr>gpsdata := g\<lparr>fix' := f\<lparr>climb := stored vs 0 (climb f)\<rparr>\<rparr>,
                    changed := insert CLIMB_SET (changed st)\<rparr>))
     else if c = CHR ''V'' then
       (let vs = lf_after scan_lf ''V='' 1 s
        in Inr (st\<lparr>gpsdata := g\<lparr>fix' := f\<lparr>speed := stored vs 0 (speed f)\<rparr>\<rparr>,
                    changed := insert SPEED_SET (changed st)\<rparr>))
     else if c = CHR ''X'' then
       (let vs = lf_after scan_lf ''V='' 1 s
        in Inr (st\<lparr>gpsdata := g\<lparr>fix' := f\<lparr>speed := stored vs 0 (speed f)\<rparr>\<rparr>,
                    changed := insert ONLINE_SET (changed st)\<rparr>))
     else if c = CHR ''Y'' then
       (case unpack_Y MAXCHANNELS buf sp g of
          Inl e \<Rightarrow> Inl e
        | Inr g' \<Rightarrow> Inr (st\<lparr>gpsdata := g', changed := insert SATELLITE_SET (changed st)\<rparr>))
     else if c = CHR ''Z'' then
       (let vs = d_after ''Z='' 1 s
        in Inr (st\<lparr>gpsdata := g\<lparr>profiling := stored vs 0 (profiling g)\<rparr>\<rparr>))
     else if c = CHR ''$'' then
       (let (ts, ns, vs) = scan_dollar scan_lf s
        in Inr (st\<lparr>gpsdata := g\<lparr>tag := stored ts 0 (tag g),
                                    sentence_length := stored ns 0 (sentence_length g),
                                    fix' := f\<lparr>time := stored vs 0 (time f)\<rparr>,
                                    d_xmit_time := stored vs 1 (d_xmit_time g),
                                    d_recv_time := stored vs 2 (d_recv_time g),
                                    d_decode_time := stored vs 3 (d_decode_time g),
                                    poll_time := stored vs 4 (poll_time g),
                                    emit_time := stored vs 5 (emit_time g)\<rparr>\<rparr>))
     else Inr st)"

subsection \<open>The loop over the fragments of a sentence\<close>

text \<open>\<open>if (!(tp = strchr(sp, ','))) tp = strchr(sp, '\r');\<close>\<close>

definition next_terminator :: "string \<Rightarrow> nat \<Rightarrow> nat option" where
  "next_terminator buf sp =
    (case strchr buf sp (CHR '','') of None \<Rightarrow> strchr buf sp CR | Some tp \<Rightarrow> Some tp)"

function fragments ::
  "nat \<Rightarrow> (string \<Rightarrow> ('d \<times> string) option) \<Rightarrow> string \<Rightarrow> nat \<Rightarrow> 'd unpack_state \<Rightarrow>
   fault + string \<times> 'd unpack_state" where
  "fragments MAXCHANNELS scan_lf buf sp st =
    (if length buf < sp then Inl Read_past_end
     else
       (case next_terminator buf sp of
          None \<Rightarrow> Inr (buf, st)
        | Some tp \<Rightarrow>
            (case rd (buf[tp := NUL]) (sp + 2) of
               None \<Rightarrow> Inl Read_past_end
             | Some c \<Rightarrow>
                 if c = CHR ''?'' then fragments MAXCHANNELS scan_lf (buf[tp := NUL]) (tp + 1) st
                 else
                   (case unpack_fragment MAXCHANNELS scan_lf (buf[tp := NUL]) sp st of
                      Inl e \<Rightarrow> Inl e
                    | Inr st' \<Rightarrow>
                        fragments MAXCHANNELS scan_lf (buf[tp := NUL]) (tp + 1) st'))))"
  by pat_completeness auto

lemma first_index:
  "c \<in> set s \<Longrightarrow> length (takeWhile (\<lambda>x. x \<noteq> c) s) < length s
     \<and> s ! length (takeWhile (\<lambda>x. x \<noteq> c) s) = c"
  by (induction s) auto

lemma strchr_bounds:
  assumes "strchr buf p c = Some q"
  shows "p \<le> q \<and> q < length buf \<and> buf ! q = c"
proof -
  define s where "s = cstr buf p"
  define k where "k = length (takeWhile (\<lambda>x. x \<noteq> c) s)"
  from assms have mem: "c \<in> set s" and q: "q = p + k"
    by (auto simp: strchr_def s_def k_def Let_def split: if_splits)
  from mem have k: "k < length s"
    unfolding k_def by (simp add: first_index)
  have len: "length s \<le> length buf - p"
    unfolding s_def cstr_def using length_takeWhile_le [of _ "drop p buf"] by simp
  have "s ! k = c"
    using mem unfolding k_def by (simp add: first_index)
  moreover have "s ! k = drop p buf ! k"
    using k unfolding s_def cstr_def by (simp add: takeWhile_nth)
  moreover have "p + k < length buf" using k len by simp
  ultimately show ?thesis using q by simp
qed

lemma next_terminator_bounds:
  assumes "next_terminator buf sp = Some tp"
  shows "sp \<le> tp \<and> tp < length buf \<and> (buf ! tp = CHR '','' \<or> buf ! tp = CR)"
  using assms strchr_bounds [of buf sp _ tp]
  by (auto simp: next_terminator_def split: option.splits)

termination fragments
proof (relation "measure (\<lambda>(m, scan_lf, buf, sp, st). Suc (length buf) - sp)")
  show "wf (measure (\<lambda>(m, scan_lf, buf, sp, st). Suc (length buf) - sp))" by simp
next
  fix MAXCHANNELS :: nat and scan_lf :: "string \<Rightarrow> ('d \<times> string) option" and buf sp
    and st :: "'d unpack_state" and tp c
  assume "next_terminator buf sp = Some tp"
  from next_terminator_bounds [OF this]
  show "((MAXCHANNELS, scan_lf, buf[tp := NUL], tp + 1, st), MAXCHANNELS, scan_lf, buf, sp, st)
        \<in> measure (\<lambda>(m, scan_lf, buf, sp, st). Suc (length buf) - sp)"
    by auto
next
  fix MAXCHANNELS :: nat and scan_lf :: "string \<Rightarrow> ('d \<times> string) option" and buf sp
    and st st' :: "'d unpack_state" and tp c
  assume "next_terminator buf sp = Some tp"
  from next_terminator_bounds [OF this]
  show "((MAXCHANNELS, scan_lf, buf[tp := NUL], tp + 1, st'), MAXCHANNELS, scan_lf, buf, sp, st)
        \<in> measure (\<lambda>(m, scan_lf, buf, sp, st). Suc (length buf) - sp)"
    by auto
qed

declare fragments.simps [simp del]

text \<open>
  What the loop does to the buffer: \<open>overwritten buf buf'\<close> says that \<open>buf'\<close> is
  \<open>buf\<close> with some of its commas and carriage returns replaced by NUL.
\<close>

definition overwritten :: "string \<Rightarrow> string \<Rightarrow> bool" where
  "overwritten buf buf' =
    list_all2 (\<lambda>x y. y = x \<or> ((x = CHR '','' \<or> x = CR) \<and> y = NUL)) buf buf'"

lemma overwritten_refl: "overwritten buf buf"
  by (simp add: overwritten_def list_all2_refl)

lemma overwritten_length: "overwritten buf buf' \<Longrightarrow> length buf' = length buf"
  by (simp add: overwritten_def list_all2_lengthD)

lemma overwritten_trans:
  assumes ab: "overwritten a b" and bc: "overwritten b c"
  shows "overwritten a c"
proof -
  have lab: "length a = length b" and lbc: "length b = length c"
    using ab bc by (simp_all add: overwritten_def list_all2_lengthD)
  have "c ! i = a ! i \<or> ((a ! i = CHR '','' \<or> a ! i = CR) \<and> c ! i = NUL)"
    if i: "i < length a" for i
  proof -
    have 1: "b ! i = a ! i \<or> ((a ! i = CHR '','' \<or> a ! i = CR) \<and> b ! i = NUL)"
      using ab i unfolding overwritten_def by (simp add: list_all2_conv_all_nth)
    have 2: "c ! i = b ! i \<or> ((b ! i = CHR '','' \<or> b ! i = CR) \<and> c ! i = NUL)"
      using bc i lab unfolding overwritten_def by (simp add: list_all2_conv_all_nth)
    from 1 2 show ?thesis by auto
  qed
  then show ?thesis
    using lab lbc unfolding overwritten_def by (simp add: list_all2_conv_all_nth)
qed

lemma overwritten_step:
  assumes "next_terminator buf sp = Some tp"
  shows "overwritten buf (buf[tp := NUL])"
  using next_terminator_bounds [OF assms]
  unfolding overwritten_def list_all2_conv_all_nth
  by (auto simp: nth_list_update)

lemma fragments_overwritten:
  "fragments MAXCHANNELS scan_lf buf sp st = Inr (buf', st') \<Longrightarrow> overwritten buf buf'"
proof (induction MAXCHANNELS scan_lf buf sp st rule: fragments.induct)
  case (1 MAXCHANNELS scan_lf buf sp st)
  show ?case
  proof (cases "next_terminator buf sp")
    case None
    with "1.prems" show ?thesis
      by (simp add: fragments.simps [of _ _ buf] overwritten_refl split: if_splits)
  next
    case (Some tp)
    from "1.prems" have le: "\<not> length buf < sp"
      by (simp add: fragments.simps [of _ _ buf] split: if_splits)
    from "1.prems" le Some obtain c where c: "rd (buf[tp := NUL]) (sp + 2) = Some c"
      by (auto simp: fragments.simps [of _ _ buf] split: option.splits)
    have "overwritten (buf[tp := NUL]) buf'"
    proof (cases "c = CHR ''?''")
      case True
      with "1.prems" le Some c
      have "fragments MAXCHANNELS scan_lf (buf[tp := NUL]) (tp + 1) st = Inr (buf', st')"
        by (simp add: fragments.simps [of _ _ buf])
      from "1.IH"(1) [OF le Some c True this] show ?thesis .
    next
      case False
      with "1.prems" le Some c obtain st1 where
        u: "unpack_fragment MAXCHANNELS scan_lf (buf[tp := NUL]) sp st = Inr st1" and
        f: "fragments MAXCHANNELS scan_lf (buf[tp := NUL]) (tp + 1) st1 = Inr (buf', st')"
        by (auto simp: fragments.simps [of _ _ buf] split: sum.splits)
      from "1.IH"(2) [OF le Some c False u f] show ?thesis .
    qed
    with overwritten_step [OF Some] show ?thesis by (rule overwritten_trans)
  qed
qed

lemma strstr_bounds:
  "strstr s needle = Some k \<Longrightarrow> k + length needle \<le> length s"
proof (induction s arbitrary: k)
  case Nil
  then show ?case by (simp split: if_splits)
next
  case (Cons c cs)
  show ?case
  proof (cases "take (length needle) (c # cs) = needle")
    case True
    then have "length (take (length needle) (c # cs)) = length needle" by simp
    then have "length needle \<le> length (c # cs)" by (simp del: take_Suc_Cons)
    with True Cons.prems show ?thesis by simp
  next
    case False
    with Cons.prems obtain k' where "strstr cs needle = Some k'" "k = Suc k'" by auto
    with Cons.IH show ?thesis by simp
  qed
qed

subsection \<open>gps_unpack\<close>

text \<open>
  The outer loop, \<open>for (ns = buf; ns; ns = strstr(ns+1, "GPSD"))\<close>: \<open>strncmp\<close> compares
  the first four characters of the C string at \<open>ns\<close>, and \<open>strstr\<close> searches the buffer
  as the loop over the fragments has left it.
\<close>

function sentences ::
  "nat \<Rightarrow> (string \<Rightarrow> ('d \<times> string) option) \<Rightarrow> string \<Rightarrow> nat \<Rightarrow> 'd unpack_state \<Rightarrow>
   fault + string \<times> 'd unpack_state" where
  "sentences MAXCHANNELS scan_lf buf ns st =
    (case (if take 4 (cstr buf ns) = ''GPSD''
           then fragments MAXCHANNELS scan_lf buf (ns + 5) st else Inr (buf, st)) of
       Inl e \<Rightarrow> Inl e
     | Inr (buf', st') \<Rightarrow>
         if length buf' < ns + 1 then Inl Read_past_end
         else
           (case strstr (cstr buf' (ns + 1)) ''GPSD'' of
              None \<Rightarrow> Inr (buf', st')
            | Some k \<Rightarrow> sentences MAXCHANNELS scan_lf buf' (ns + 1 + k) st'))"
  by pat_completeness auto

termination sentences
proof (relation "measure (\<lambda>(m, scan_lf, buf, ns, st). length buf - ns)")
  show "wf (measure (\<lambda>(m, scan_lf, buf, ns, st). length buf - ns))" by simp
next
  fix MAXCHANNELS :: nat and scan_lf :: "string \<Rightarrow> ('d \<times> string) option" and buf ns
    and st st' :: "'d unpack_state" and r buf' k
  assume r: "(if take 4 (cstr buf ns) = ''GPSD''
              then fragments MAXCHANNELS scan_lf buf (ns + 5) st else Inr (buf, st)) = Inr r"
    and r': "(buf', st') = r"
    and le: "\<not> length buf' < ns + 1"
    and k: "strstr (cstr buf' (ns + 1)) ''GPSD'' = Some k"
  have "length buf' = length buf"
    using r r' fragments_overwritten [of MAXCHANNELS scan_lf buf "ns + 5" st buf' st']
    by (auto simp: overwritten_length split: if_splits)
  moreover have "k + 4 \<le> length (cstr buf' (ns + 1))"
    using strstr_bounds [OF k] by simp
  moreover have "length (cstr buf' (ns + 1)) \<le> length buf' - (ns + 1)"
    unfolding cstr_def using length_takeWhile_le [of _ "drop (ns + 1) buf'"] by simp
  ultimately
  show "((MAXCHANNELS, scan_lf, buf', ns + 1 + k, st'), MAXCHANNELS, scan_lf, buf, ns, st)
        \<in> measure (\<lambda>(m, scan_lf, buf, ns, st). length buf - ns)"
    using le by simp
qed

declare sentences.simps [simp del]

text \<open>
  The whole function. The result holds the session and the buffer as the function leaves
  them, the value returned, the strings freed, and the calls of the raw hook:
  the hook is handed the session and the pointer \<open>buf\<close>, so each call is recorded with
  the session and the contents of the buffer at that moment.
\<close>

record 'd unpack_result =
  session :: "'d gps_data_t"
  buffer :: string
  returned :: "change_bit set"
  freed_strings :: "string list"
  hook_calls :: "('d gps_data_t \<times> string) list"

definition gps_unpack ::
  "nat \<Rightarrow> (string \<Rightarrow> ('d \<times> string) option) \<Rightarrow> string \<Rightarrow> 'd gps_data_t \<Rightarrow>
   fault + 'd unpack_result" where
  "gps_unpack MAXCHANNELS scan_lf buf g =
    (case sentences MAXCHANNELS scan_lf buf 0 \<lparr>gpsdata = g, changed = {}, freed = []\<rparr> of
       Inl e \<Rightarrow> Inl e
     | Inr (buf', st) \<Rightarrow>
         Inr \<lparr>session = gpsdata st, buffer = buf', returned = changed st,
              freed_strings = freed st,
              hook_calls = (if raw_hook (gpsdata st) then [(gpsdata st, buf')] else [])\<rparr>)"

text \<open>
  The session as \<open>calloc\<close> returns it in \<open>gps_open\<close>: every field zero, the pointers
  null (\<open>zero\<close> is the double 0.0).
\<close>

definition calloc_gps_data :: "nat \<Rightarrow> 'd \<Rightarrow> 'd gps_data_t" where
  "calloc_gps_data MAXCHANNELS zero =
    \<lparr>fix' = \<lparr>time = zero, mode = 0, latitude = zero, longitude = zero, altitude = zero,
             track = zero, speed = zero, climb = zero, eph = zero, epv = zero\<rparr>,
     baudrate = 0, stopbits = 0, cycle = 0, utc = [], epe = zero, gps_id = None,
     driver_mode = 0, satellites_used = 0, pdop = zero, hdop = zero, vdop = zero,
     status = 0, satellites = 0,
     PRN = replicate MAXCHANNELS (Some 0), elevation = replicate MAXCHANNELS (Some 0),
     azimuth = replicate MAXCHANNELS (Some 0), ss = replicate MAXCHANNELS (Some 0),
     used = replicate MAXCHANNELS (Some 0),
     profiling = 0, tag = [], sentence_length = 0, d_xmit_time = zero, d_recv_time = zero,
     d_decode_time = zero, poll_time = zero, emit_time = zero, raw_hook = False\<rparr>"

subsection \<open>The ends of the fragments\<close>










section \<open>Properties of the subframe decoder\<close>

subsection \<open>Bits of a word\<close>

lemma xor_ff_swap: "((p::u32) XOR 0xff = q) = (p = q XOR 0xff)"
proof
  assume "p XOR 0xff = q"
  then have "(p XOR 0xff) XOR 0xff = q XOR 0xff" by simp
  then show "p = q XOR 0xff" by (simp add: xor.assoc)
next
  assume "p = q XOR 0xff" then show "p XOR 0xff = q" by (simp add: xor.assoc)
qed

lemma c3f: "(0x3f::u32) = mask 6" by (simp add: mask_eq_exp_minus_1)

lemma c30: "(0x40000000::u32) = 2 ^ 30" by simp

lemma flip_low_bit30: "b < 6 \<Longrightarrow> (flip_bit b (w::u32) AND 0x40000000 = 0) = (w AND 0x40000000 = 0)"
  unfolding c30 and_exp_eq_0_iff_not_bit by (simp add: bit_simps)

lemma flip_low_uninvert: "b < 6 \<Longrightarrow> uninvert (flip_bit b w) = flip_bit b (uninvert w)"
  unfolding uninvert_def
  by (simp add: flip_low_bit30) (simp add: flip_bit_eq_xor xor.assoc xor.commute [of "2 ^ b"])

lemma flip_low_data: "b < 6 \<Longrightarrow> flip_bit b (w::u32) AND NOT 0x3f = w AND NOT 0x3f"
  unfolding c3f by (rule bit_word_eqI) (auto simp: bit_simps)

lemma flip_low_parity: "b < 6 \<Longrightarrow> flip_bit b (w::u32) AND 0x3f \<noteq> w AND 0x3f"
proof
  assume b: "b < 6" and eq: "flip_bit b w AND 0x3f = w AND 0x3f"
  then have "bit (flip_bit b w AND 0x3f) b = bit (w AND 0x3f) b" by simp
  with b show False unfolding c3f by (auto simp: bit_simps)
qed

lemma xor_and_ff: "((x::u32) XOR 0xff) AND 0xff = (x AND 0xff) XOR 0xff"
  by (rule bit_word_eqI) (auto simp: bit_simps)

lemma pre_cases:
  "(((x::u32) XOR 0xff) AND 0xff = 0x8b) = (x AND 0xff = 0x74)"
  "(((x::u32) XOR 0xff) AND 0xff = 0x74) = (x AND 0xff = 0x8b)"
  by (simp_all add: xor_and_ff xor_ff_swap)

lemma xor_twice: "((x::u32) XOR y) XOR y = x"
  by (simp add: xor.assoc)

lemma raw_word0_inverted:
  assumes len: "length words = 10"
    and pre: "drop_bit 22 w0 AND 0xff = 0x74"
  shows "gpsd_interpret_subframe_raw P L V c svid (words[0 := w0 XOR 0x3fffffff]) =
         (gpsd_interpret_subframe_raw P L V c svid (words[0 := w0]))
           \<lparr>reports := Report LOG_IO ''gpsd_interpret_subframe_raw'' (words[0 := w0 XOR 0x3fffffff]) #
              tl (reports (gpsd_interpret_subframe_raw P L V c svid (words[0 := w0])))\<rparr>"
  using len pre
  by (simp add: gpsd_interpret_subframe_raw_def Let_def pre_cases xor_twice
           split: sum.split prod.split)

lemma raw_word0_bad:
  assumes len: "length words = 10"
    and pre: "drop_bit 22 w0 AND 0xff \<noteq> 0x74" "drop_bit 22 w0 AND 0xff \<noteq> 0x8b"
  shows "ctx (gpsd_interpret_subframe_raw P L V c svid (words[0 := w0 XOR 0x3fffffff])) = c
       \<and> ctx (gpsd_interpret_subframe_raw P L V c svid (words[0 := w0])) = c"
  using len pre
  by (simp add: gpsd_interpret_subframe_raw_def Let_def pre_cases)

lemma sub_word0_inverted:
  assumes len: "length words = 10"
    and pre: "drop_bit 16 w0 AND 0xff = 0x74"
  shows "gpsd_interpret_subframe L V c svid (words[0 := w0 XOR 0xffffff]) =
         (case gpsd_interpret_subframe L V c svid (words[0 := w0]) of
            (c', ws, rs) \<Rightarrow> (c', ws, Report LOG_IO ''gpsd_interpret_subframe''
                                    (svid # words[0 := w0 XOR 0xffffff]) # tl rs))"
  using len pre
  by (simp add: gpsd_interpret_subframe_def Let_def pre_cases xor_twice xor_and_ff)

lemma sub_word0_bad:
  assumes pre: "drop_bit 16 w0 AND 0xff \<noteq> 0x74" "drop_bit 16 w0 AND 0xff \<noteq> 0x8b"
    and len: "length words = 10"
  shows "fst (gpsd_interpret_subframe L V c svid (words[0 := w0 XOR 0xffffff])) = c
       \<and> fst (gpsd_interpret_subframe L V c svid (words[0 := w0])) = c"
  using len pre
  by (simp add: gpsd_interpret_subframe_def Let_def pre_cases xor_and_ff xor_ff_swap)

lemma raw_ctx_inverted:
  assumes len: "length words = 10"
  shows "ctx (gpsd_interpret_subframe_raw P L V c svid (words[0 := w0 XOR 0x3fffffff])) =
         ctx (gpsd_interpret_subframe_raw P L V c svid (words[0 := w0]))"
proof -
  consider (plain) "drop_bit 22 w0 AND 0xff = 0x74" | (inv) "drop_bit 22 w0 AND 0xff = 0x8b"
    | (bad) "drop_bit 22 w0 AND 0xff \<noteq> 0x74" "drop_bit 22 w0 AND 0xff \<noteq> 0x8b"
    by blast
  then show ?thesis
  proof cases
    case plain
    from raw_word0_inverted [OF len plain] show ?thesis by simp
  next
    case inv
    then have "drop_bit 22 (w0 XOR 0x3fffffff) AND 0xff = 0x74"
      by (simp add: pre_cases)
    from raw_word0_inverted [OF len this, of P L V c svid] show ?thesis
      by (simp add: xor_twice)
  next
    case bad
    from raw_word0_bad [OF len bad] show ?thesis by simp
  qed
qed

lemma sub_ctx_inverted:
  assumes len: "length words = 10"
  shows "fst (gpsd_interpret_subframe L V c svid (words[0 := w0 XOR 0xffffff])) =
         fst (gpsd_interpret_subframe L V c svid (words[0 := w0]))"
proof -
  consider (plain) "drop_bit 16 w0 AND 0xff = 0x74" | (inv) "drop_bit 16 w0 AND 0xff = 0x8b"
    | (bad) "drop_bit 16 w0 AND 0xff \<noteq> 0x74" "drop_bit 16 w0 AND 0xff \<noteq> 0x8b"
    by blast
  then show ?thesis
  proof cases
    case plain
    from sub_word0_inverted [OF len plain] show ?thesis by (simp split: prod.split)
  next
    case inv
    then have "drop_bit 16 (w0 XOR 0xffffff) AND 0xff = 0x74"
      by (simp add: pre_cases)
    from sub_word0_inverted [OF len this, of L V c svid] show ?thesis
      by (simp add: xor_twice split: prod.split)
  next
    case bad
    from sub_word0_bad [OF bad len] show ?thesis by simp
  qed
qed

lemma parity_loop_pass:
  assumes "distinct js" "\<forall>j \<in> set js. j < length ws"
    and "\<forall>j \<in> set js. P (uninvert (ws ! j)) = uninvert (ws ! j) AND 0x3f"
  shows "\<exists>ws'. parity_loop P js ws = Inr ws'"
  using assms
proof (induction js arbitrary: ws)
  case Nil
  then show ?case by simp
next
  case (Cons i js)
  let ?ws = "ws[i := uninvert (ws ! i)]"
  let ?ws' = "?ws[i := drop_bit 6 (?ws ! i) AND 0xffffff]"
  have same: "\<forall>j \<in> set js. ?ws' ! j = ws ! j"
  proof
    fix j assume "j \<in> set js"
    with Cons.prems(1) have "i \<noteq> j" by auto
    then show "?ws' ! j = ws ! j" by simp
  qed
  have "\<exists>ws'. parity_loop P js ?ws' = Inr ws'"
  proof (rule Cons.IH)
    show "distinct js" using Cons.prems(1) by simp
    show "\<forall>j \<in> set js. j < length ?ws'" using Cons.prems(2) by simp
    show "\<forall>j \<in> set js. P (uninvert (?ws' ! j)) = uninvert (?ws' ! j) AND 0x3f"
      using same Cons.prems(3) by simp
  qed
  moreover have "P (?ws ! i) = ?ws ! i AND 0x3f"
    using Cons.prems(2,3) by simp
  ultimately show ?case by (simp add: Let_def)
qed

lemma parity_loop_fail:
  assumes "distinct (js @ k # ks)" "\<forall>j \<in> set (js @ [k]). j < length ws"
    and "\<forall>j \<in> set js. P (uninvert (ws ! j)) = uninvert (ws ! j) AND 0x3f"
    and "P (uninvert (ws ! k)) \<noteq> uninvert (ws ! k) AND 0x3f"
  shows "\<exists>ws'. parity_loop P (js @ k # ks) ws =
           Inl (ws', Report LOG_IO ''gpsd_interpret_subframe_raw parity fail''
                       [of_nat k, P (uninvert (ws ! k)), uninvert (ws ! k) AND 0x1])"
  using assms
proof (induction js arbitrary: ws)
  case Nil
  then show ?case by (simp add: Let_def)
next
  case (Cons i js)
  let ?ws = "ws[i := uninvert (ws ! i)]"
  let ?ws' = "?ws[i := drop_bit 6 (?ws ! i) AND 0xffffff]"
  have same: "\<forall>j \<in> set (js @ [k]). ?ws' ! j = ws ! j"
  proof
    fix j assume "j \<in> set (js @ [k])"
    with Cons.prems(1) have "i \<noteq> j" by auto
    then show "?ws' ! j = ws ! j" by simp
  qed
  have "\<exists>ws''. parity_loop P (js @ k # ks) ?ws' =
           Inl (ws'', Report LOG_IO ''gpsd_interpret_subframe_raw parity fail''
                       [of_nat k, P (uninvert (?ws' ! k)), uninvert (?ws' ! k) AND 0x1])"
  proof (rule Cons.IH)
    show "distinct (js @ k # ks)" using Cons.prems(1) by simp
    show "\<forall>j \<in> set (js @ [k]). j < length ?ws'" using Cons.prems(2) by simp
    show "\<forall>j \<in> set js. P (uninvert (?ws' ! j)) = uninvert (?ws' ! j) AND 0x3f"
      using same Cons.prems(3) by simp
    show "P (uninvert (?ws' ! k)) \<noteq> uninvert (?ws' ! k) AND 0x3f"
      using same Cons.prems(4) by simp
  qed
  moreover have "?ws' ! k = ws ! k" using same by simp
  moreover have "P (?ws ! i) = ?ws ! i AND 0x3f"
    using Cons.prems(2,3) by simp
  ultimately show ?case by (simp add: Let_def)
qed

lemma sub_reports_no_parity:
  "Report LOG_IO ''gpsd_interpret_subframe_raw parity fail'' args \<notin>
     set (snd (snd (gpsd_interpret_subframe L V c svid ws)))"
  by (simp add: gpsd_interpret_subframe_def Let_def subframe1_def subframe2_def subframe3_def
      subframe4_def subframe5_def page55_def page56_def)

lemma tl_nth: "length ws = 10 \<Longrightarrow> 1 \<le> j \<Longrightarrow> j < 10 \<Longrightarrow> ws ! j \<in> set (tl ws)"
  by (cases ws) auto

lemma raw_pass:
  assumes len: "length words = 10"
    and pre: "drop_bit 22 (words ! 0) AND 0xff = 0x74 \<or> drop_bit 22 (words ! 0) AND 0xff = 0x8b"
    and ok: "\<forall>w \<in> set (tl words). P (uninvert w) = uninvert w AND 0x3f"
  shows "Report LOG_IO ''gpsd_interpret_subframe_raw parity fail'' args \<notin>
           set (reports (gpsd_interpret_subframe_raw P L V c svid words))"
proof -
  define W where "W = (if drop_bit 22 (words ! 0) AND 0xff = 0x8b
                        then words[0 := words ! 0 XOR 0x3fffffc0] else words)"
  define W0 where "W0 = W[0 := drop_bit 6 (W ! 0) AND 0xffffff]"
  have lenW: "length W0 = 10" using len by (simp add: W0_def W_def)
  have nth: "\<And>j. 1 \<le> j \<Longrightarrow> W0 ! j = words ! j" by (simp add: W0_def W_def)
  have "\<exists>ws'. parity_loop P [1..<10] W0 = Inr ws'"
  proof (rule parity_loop_pass)
    show "distinct [1..<10]" by simp
    show "\<forall>j \<in> set [1..<10]. j < length W0" using lenW by simp
    show "\<forall>j \<in> set [1..<10]. P (uninvert (W0 ! j)) = uninvert (W0 ! j) AND 0x3f"
      using ok tl_nth [OF len] nth by simp
  qed
  then obtain ws' where ws': "parity_loop P [1..<10] W0 = Inr ws'" by blast
  have "reports (gpsd_interpret_subframe_raw P L V c svid words) =
          Report LOG_IO ''gpsd_interpret_subframe_raw'' words #
          snd (snd (gpsd_interpret_subframe L V c svid ws'))"
    using pre ws' unfolding gpsd_interpret_subframe_raw_def W0_def W_def
    by (auto simp: Let_def split: prod.split)
  then show ?thesis using sub_reports_no_parity [of args L V c svid ws'] by simp
qed

lemma upt_split: "1 \<le> k \<Longrightarrow> k < 10 \<Longrightarrow> [1..<10] = [1..<k] @ k # [Suc k..<10]"
  by (metis less_imp_le_nat upt_add_eq_append upt_conv_Cons le_add_diff_inverse)

lemma raw_fail:
  assumes len: "length words = 10"
    and pre: "drop_bit 22 (words ! 0) AND 0xff = 0x74 \<or> drop_bit 22 (words ! 0) AND 0xff = 0x8b"
    and ok: "\<forall>w \<in> set (tl words). P (uninvert w) = uninvert w AND 0x3f"
    and data: "\<forall>w. P w = P (w AND NOT 0x3f)"
    and k: "1 \<le> k" "k < 10" and b: "b < 6"
  shows "reports (gpsd_interpret_subframe_raw P L V c svid (words[k := flip_bit b (words ! k)])) =
           [Report LOG_IO ''gpsd_interpret_subframe_raw'' (words[k := flip_bit b (words ! k)]),
            Report LOG_IO ''gpsd_interpret_subframe_raw parity fail''
              [of_nat k, P (uninvert (words ! k)), flip_bit b (uninvert (words ! k)) AND 0x1]]
       \<and> ctx (gpsd_interpret_subframe_raw P L V c svid (words[k := flip_bit b (words ! k)])) = c"
proof -
  define F where "F = words[k := flip_bit b (words ! k)]"
  define W where "W = (if drop_bit 22 (F ! 0) AND 0xff = 0x8b
                        then F[0 := F ! 0 XOR 0x3fffffc0] else F)"
  define W0 where "W0 = W[0 := drop_bit 6 (W ! 0) AND 0xffffff]"
  have F0: "F ! 0 = words ! 0" using k by (simp add: F_def)
  have lenW: "length W0 = 10" using len by (simp add: W0_def W_def F_def)
  have nthk: "W0 ! k = flip_bit b (words ! k)" using k len by (simp add: W0_def W_def F_def)
  have nth: "\<And>j. 1 \<le> j \<Longrightarrow> j \<noteq> k \<Longrightarrow> W0 ! j = words ! j"
    by (simp add: W0_def W_def F_def)
  have okk: "P (uninvert (words ! k)) = uninvert (words ! k) AND 0x3f"
    using ok tl_nth [OF len k] by simp
  have Pk: "P (uninvert (W0 ! k)) = P (uninvert (words ! k))"
  proof -
    have "uninvert (W0 ! k) = flip_bit b (uninvert (words ! k))"
      using b by (simp add: nthk flip_low_uninvert)
    moreover have "P (flip_bit b (uninvert (words ! k))) =
                   P (flip_bit b (uninvert (words ! k)) AND NOT 0x3f)"
      using data by blast
    moreover have "P (uninvert (words ! k) AND NOT 0x3f) = P (uninvert (words ! k))"
      using data by (rule allE [where x = "uninvert (words ! k)"]) (erule sym)
    ultimately show ?thesis by (simp only: flip_low_data [OF b])
  qed
  have bad: "P (uninvert (W0 ! k)) \<noteq> uninvert (W0 ! k) AND 0x3f"
    using okk flip_low_parity [OF b, of "uninvert (words ! k)"] b
    by (simp add: Pk) (simp add: nthk flip_low_uninvert)
  have "\<exists>ws'. parity_loop P ([1..<k] @ k # [Suc k..<10]) W0 =
           Inl (ws', Report LOG_IO ''gpsd_interpret_subframe_raw parity fail''
                       [of_nat k, P (uninvert (W0 ! k)), uninvert (W0 ! k) AND 0x1])"
  proof (rule parity_loop_fail)
    show "distinct ([1..<k] @ k # [Suc k..<10])"
      using upt_split [OF k] distinct_upt [of 1 10] by simp
    show "\<forall>j \<in> set ([1..<k] @ [k]). j < length W0" using lenW k by auto
    show "\<forall>j \<in> set [1..<k]. P (uninvert (W0 ! j)) = uninvert (W0 ! j) AND 0x3f"
    proof
      fix j assume j: "j \<in> set [1..<k]"
      then have "W0 ! j = words ! j" using nth by simp
      moreover have "words ! j \<in> set (tl words)" using j k tl_nth [OF len, of j] by simp
      ultimately show "P (uninvert (W0 ! j)) = uninvert (W0 ! j) AND 0x3f" using ok by simp
    qed
    show "P (uninvert (W0 ! k)) \<noteq> uninvert (W0 ! k) AND 0x3f" by (rule bad)
  qed
  then obtain ws' where ws': "parity_loop P [1..<10] W0 =
           Inl (ws', Report LOG_IO ''gpsd_interpret_subframe_raw parity fail''
                       [of_nat k, P (uninvert (words ! k)), flip_bit b (uninvert (words ! k)) AND 0x1])"
    using upt_split [OF k] Pk b by (auto simp: nthk flip_low_uninvert)
  show ?thesis
    using pre ws' F0 unfolding gpsd_interpret_subframe_raw_def W0_def W_def F_def [symmetric]
    by (auto simp: Let_def)
qed

subsection \<open>The claims on the subframe decoder\<close>

text \<open>
  The claim C1 as the specification states it (a value less than the one stored in the
  context is rejected and the stored value kept) fails: with 20 stored and
  \<open>LEAP_SECONDS = 15\<close>, a page 56 with 17 leap seconds is adopted and the flag set, and
  one with 10 leap seconds stores 15.
\<close>

theorem page56_leap_regression_counterexample:
  "\<not> (uint (drop_bit 16 ((0x110000 :: u32) AND 0xff0000)) < sint (20 :: 32 word) \<longrightarrow>
      leap_seconds (fst (gpsd_interpret_subframe 15 1
        \<lparr>valid = 0, leap_seconds = 20, gps_week = 0\<rparr> 3
        [0x740000, 0x000010, 0x380000, 0, 0, 0, 0, 0, 0x110000, 0x110000])) = 20
      \<and> valid (fst (gpsd_interpret_subframe 15 1
        \<lparr>valid = 0, leap_seconds = 20, gps_week = 0\<rparr> 3
        [0x740000, 0x000010, 0x380000, 0, 0, 0, 0, 0, 0x110000, 0x110000])) AND 1 = 0)
   \<and> \<not> (uint (drop_bit 16 ((0x0A0000 :: u32) AND 0xff0000)) < sint (20 :: 32 word) \<longrightarrow>
      leap_seconds (fst (gpsd_interpret_subframe 15 1
        \<lparr>valid = 1, leap_seconds = 20, gps_week = 0\<rparr> 3
        [0x740000, 0x000010, 0x380000, 0, 0, 0, 0, 0, 0x0A0000, 0x0A0000])) = 20)"
  by (simp add: gpsd_interpret_subframe_def subframe4_def page56_def Let_def)

text \<open>
  Claim C1, as amended. The code compares the leap seconds of page 56 with the
  compile-time constant \<open>LEAP_SECONDS\<close>, not with the value stored in the context:
  when the value extracted is less than \<open>LEAP_SECONDS\<close>, the context's leap seconds
  become \<open>LEAP_SECONDS\<close> and the validity flag is cleared.
\<close>

theorem page56_leap_regression:
  assumes "length words = 10"
    and "drop_bit 16 (words ! 0) AND 0xff = 0x74 \<or> drop_bit 16 (words ! 0) AND 0xff = 0x8b"
    and "drop_bit 2 (words ! 1) AND 0x07 = 4"
    and "drop_bit 16 (words ! 2 AND 0x3F0000) = 56"
    and "drop_bit 16 (words ! 8 AND 0xff0000) < LEAP_SECONDS"
  shows "leap_seconds (fst (gpsd_interpret_subframe LEAP_SECONDS LEAP_SECOND_VALID c svid words)) =
           LEAP_SECONDS
       \<and> valid (fst (gpsd_interpret_subframe LEAP_SECONDS LEAP_SECOND_VALID c svid words))
           AND LEAP_SECOND_VALID = 0
       \<and> gps_week (fst (gpsd_interpret_subframe LEAP_SECONDS LEAP_SECOND_VALID c svid words)) =
           gps_week c"
  using assms
  by (auto simp: gpsd_interpret_subframe_def subframe4_def page56_def Let_def and.assoc)

theorem page56_leap_regression_witness:
  "leap_seconds (fst (gpsd_interpret_subframe 15 1 \<lparr>valid = 1, leap_seconds = 15, gps_week = 0\<rparr> 3
        [0x740000, 0x000010, 0x380000, 0, 0, 0, 0, 0, 0x0A0000, 0x0A0000])) = 15
   \<and> valid (fst (gpsd_interpret_subframe 15 1 \<lparr>valid = 1, leap_seconds = 15, gps_week = 0\<rparr> 3
        [0x740000, 0x000010, 0x380000, 0, 0, 0, 0, 0, 0x0A0000, 0x0A0000])) AND 1 = 0"
proof -
  let ?ws = "[0x740000, 0x000010, 0x380000, 0, 0, 0, 0, 0, 0x0A0000, 0x0A0000] :: u32 list"
  have len: "length ?ws = 10" by simp
  have pre: "drop_bit 16 (?ws ! 0) AND 0xff = 0x74 \<or> drop_bit 16 (?ws ! 0) AND 0xff = 0x8b"
    by simp
  have sf: "drop_bit 2 (?ws ! 1) AND 0x07 = 4" by simp
  have pg: "drop_bit 16 (?ws ! 2 AND 0x3F0000) = 56" by simp
  have lp: "drop_bit 16 (?ws ! 8 AND 0xff0000) < 15" by simp
  from page56_leap_regression [OF len pre sf pg lp, of 1 "\<lparr>valid = 1, leap_seconds = 15, gps_week = 0\<rparr>" 3]
  show ?thesis by simp
qed

text \<open>
  Claim C4. For a subframe of ten words with a valid preamble whose words 1 to 9 all
  carry the parity recomputed from the word (after the inversion step), no parity failure
  is reported. If moreover the parity function reads the data bits only (not the six
  transmitted parity bits), flipping one parity bit \<open>b < 6\<close> of one word \<open>k\<close> of 1 to 9
  stops the decoding with the parity-failure report that carries the index \<open>k\<close>, and the
  context is untouched.
\<close>

theorem raw_parity_check:
  assumes len: "length words = 10"
    and pre: "drop_bit 22 (words ! 0) AND 0xff = 0x74 \<or> drop_bit 22 (words ! 0) AND 0xff = 0x8b"
    and ok: "\<forall>w \<in> set (tl words). isgps_parity (uninvert w) = uninvert w AND 0x3f"
  shows "(\<forall>args. Report LOG_IO ''gpsd_interpret_subframe_raw parity fail'' args \<notin>
            set (reports (gpsd_interpret_subframe_raw isgps_parity L V c svid words)))
       \<and> ((\<forall>w. isgps_parity w = isgps_parity (w AND NOT 0x3f)) \<longrightarrow>
          (\<forall>k b. 1 \<le> k \<and> k < 10 \<and> b < 6 \<longrightarrow>
             reports (gpsd_interpret_subframe_raw isgps_parity L V c svid
                        (words[k := flip_bit b (words ! k)])) =
               [Report LOG_IO ''gpsd_interpret_subframe_raw'' (words[k := flip_bit b (words ! k)]),
                Report LOG_IO ''gpsd_interpret_subframe_raw parity fail''
                  [of_nat k, isgps_parity (uninvert (words ! k)),
                   flip_bit b (uninvert (words ! k)) AND 0x1]]
             \<and> ctx (gpsd_interpret_subframe_raw isgps_parity L V c svid
                        (words[k := flip_bit b (words ! k)])) = c))"
  using raw_pass [OF len pre ok] raw_fail [OF len pre ok] by blast

theorem raw_parity_check_witness:
  "(\<forall>args. Report LOG_IO ''gpsd_interpret_subframe_raw parity fail'' args \<notin>
      set (reports (gpsd_interpret_subframe_raw (\<lambda>w. drop_bit 24 w AND 0x3f) 15 1
        \<lparr>valid = 0, leap_seconds = 15, gps_week = 0\<rparr> 7
        [0x1D000000, 0x05000005, 0x05000005, 0x7A000005, 0x05000005, 0x05000005,
         0x05000005, 0x05000005, 0x05000005, 0x05000005])))
   \<and> reports (gpsd_interpret_subframe_raw (\<lambda>w. drop_bit 24 w AND 0x3f) 15 1
        \<lparr>valid = 0, leap_seconds = 15, gps_week = 0\<rparr> 7
        [0x1D000000, 0x05000005, 0x05000005, 0x7A000001, 0x05000005, 0x05000005,
         0x05000005, 0x05000005, 0x05000005, 0x05000005]) =
      [Report LOG_IO ''gpsd_interpret_subframe_raw''
         [0x1D000000, 0x05000005, 0x05000005, 0x7A000001, 0x05000005, 0x05000005,
          0x05000005, 0x05000005, 0x05000005, 0x05000005],
       Report LOG_IO ''gpsd_interpret_subframe_raw parity fail'' [3, 5, 1]]"
proof -
  let ?P = "\<lambda>w::u32. drop_bit 24 w AND 0x3f"
  let ?ws = "[0x1D000000, 0x05000005, 0x05000005, 0x7A000005, 0x05000005, 0x05000005,
         0x05000005, 0x05000005, 0x05000005, 0x05000005] :: u32 list"
  have len: "length ?ws = 10" by simp
  have pre: "drop_bit 22 (?ws ! 0) AND 0xff = 0x74 \<or> drop_bit 22 (?ws ! 0) AND 0xff = 0x8b"
    by simp
  have ok: "\<forall>w \<in> set (tl ?ws). ?P (uninvert w) = uninvert w AND 0x3f"
    by (simp add: uninvert_def)
  have data: "\<forall>w. ?P w = ?P (w AND NOT 0x3f)"
  proof
    fix w :: u32
    show "?P w = ?P (w AND NOT 0x3f)"
      unfolding c3f by (rule bit_word_eqI) (auto simp: bit_simps)
  qed
  note t = raw_parity_check [OF len pre ok, of 15 1 "\<lparr>valid = 0, leap_seconds = 15, gps_week = 0\<rparr>" 7]
  have a: "\<forall>args. Report LOG_IO ''gpsd_interpret_subframe_raw parity fail'' args \<notin>
      set (reports (gpsd_interpret_subframe_raw ?P 15 1
        \<lparr>valid = 0, leap_seconds = 15, gps_week = 0\<rparr> 7 ?ws))"
    using t by blast
  have "(3::nat) \<ge> 1 \<and> (3::nat) < 10 \<and> (2::nat) < 6" by simp
  with t data have b: "reports (gpsd_interpret_subframe_raw ?P 15 1
        \<lparr>valid = 0, leap_seconds = 15, gps_week = 0\<rparr> 7 (?ws[3 := flip_bit 2 (?ws ! 3)])) =
               [Report LOG_IO ''gpsd_interpret_subframe_raw'' (?ws[3 := flip_bit 2 (?ws ! 3)]),
                Report LOG_IO ''gpsd_interpret_subframe_raw parity fail''
                  [of_nat 3, ?P (uninvert (?ws ! 3)),
                   flip_bit 2 (uninvert (?ws ! 3)) AND 0x1]]"
    by blast
  have f: "flip_bit 2 (0x7A000005::u32) = 0x7A000001" by (simp add: flip_bit_eq_xor)
  have g: "flip_bit 2 (0x45FFFFC5::u32) = 0x45FFFFC1" by (simp add: flip_bit_eq_xor)
  from b have "reports (gpsd_interpret_subframe_raw ?P 15 1
        \<lparr>valid = 0, leap_seconds = 15, gps_week = 0\<rparr> 7
        [0x1D000000, 0x05000005, 0x05000005, 0x7A000001, 0x05000005, 0x05000005,
         0x05000005, 0x05000005, 0x05000005, 0x05000005]) =
      [Report LOG_IO ''gpsd_interpret_subframe_raw''
         [0x1D000000, 0x05000005, 0x05000005, 0x7A000001, 0x05000005, 0x05000005,
          0x05000005, 0x05000005, 0x05000005, 0x05000005],
       Report LOG_IO ''gpsd_interpret_subframe_raw parity fail'' [3, 5, 1]]"
    by (simp add: uninvert_def f g)
  with a show ?thesis by blast
qed

text \<open>
  Claim C7. Decoding a subframe 1 (valid preamble, subframe id 1 in the hand-over
  word) stores the 10-bit week number of word 2, bits 14 to 23, in the context's
  \<open>gps_week\<close> as it is, whatever its value; the leap seconds and the validity flags
  stay as they were. With the week-number bits \<open>0x100\<close> the week number is 256 (the
  witness).
\<close>

theorem subframe1_week_number:
  assumes "length words = 10"
    and "drop_bit 16 (words ! 0) AND 0xff = 0x74 \<or> drop_bit 16 (words ! 0) AND 0xff = 0x8b"
    and "drop_bit 2 (words ! 1) AND 0x07 = 1"
  shows "gps_week (fst (gpsd_interpret_subframe LEAP_SECONDS LEAP_SECOND_VALID c svid words)) =
           ucast (drop_bit 14 (words ! 2) AND 0x3ff)
       \<and> leap_seconds (fst (gpsd_interpret_subframe LEAP_SECONDS LEAP_SECOND_VALID c svid words)) =
           leap_seconds c
       \<and> valid (fst (gpsd_interpret_subframe LEAP_SECONDS LEAP_SECOND_VALID c svid words)) = valid c"
  using assms by (auto simp: gpsd_interpret_subframe_def subframe1_def Let_def)

theorem subframe1_week_number_witness:
  "gps_week (fst (gpsd_interpret_subframe 15 1 \<lparr>valid = 1, leap_seconds = 15, gps_week = 7\<rparr> 3
      [0x740000, 0x000004, 0x400000, 0, 0, 0, 0, 0, 0, 0])) = 256
   \<and> drop_bit 14 (0x400000 :: u32) AND 0x3ff = 0x100"
proof -
  let ?ws = "[0x740000, 0x000004, 0x400000, 0, 0, 0, 0, 0, 0, 0] :: u32 list"
  have len: "length ?ws = 10" by simp
  have pre: "drop_bit 16 (?ws ! 0) AND 0xff = 0x74 \<or> drop_bit 16 (?ws ! 0) AND 0xff = 0x8b"
    by simp
  have sf: "drop_bit 2 (?ws ! 1) AND 0x07 = 1" by simp
  from subframe1_week_number [OF len pre sf, of 15 1 "\<lparr>valid = 1, leap_seconds = 15, gps_week = 7\<rparr>" 3]
  show ?thesis by simp
qed

text \<open>
  Claim C8. A subframe whose word 0 is presented with its 30 used bits complemented
  gives the same return value and the same context as with word 0 as it is; when the
  preamble is valid the array handed on and every report after the dump of the raw input
  are the same too. The same holds for \<open>gpsd_interpret_subframe\<close> on words without
  parity, where the 24 bits of word 0 are complemented.
\<close>

theorem inverted_word0_same_decode:
  assumes len: "length words = 10"
  shows "retval (gpsd_interpret_subframe_raw P L V c svid (words[0 := w0 XOR 0x3fffffff])) =
         retval (gpsd_interpret_subframe_raw P L V c svid (words[0 := w0]))
       \<and> ctx (gpsd_interpret_subframe_raw P L V c svid (words[0 := w0 XOR 0x3fffffff])) =
         ctx (gpsd_interpret_subframe_raw P L V c svid (words[0 := w0]))
       \<and> (drop_bit 22 w0 AND 0xff = 0x74 \<longrightarrow>
            words_out (gpsd_interpret_subframe_raw P L V c svid (words[0 := w0 XOR 0x3fffffff])) =
            words_out (gpsd_interpret_subframe_raw P L V c svid (words[0 := w0]))
          \<and> tl (reports (gpsd_interpret_subframe_raw P L V c svid (words[0 := w0 XOR 0x3fffffff]))) =
            tl (reports (gpsd_interpret_subframe_raw P L V c svid (words[0 := w0]))))
       \<and> fst (gpsd_interpret_subframe L V c svid (words[0 := w0 XOR 0xffffff])) =
         fst (gpsd_interpret_subframe L V c svid (words[0 := w0]))"
proof -
  have r: "\<And>ws. retval (gpsd_interpret_subframe_raw P L V c svid ws) = 0"
    by (simp add: gpsd_interpret_subframe_raw_def Let_def split: sum.split prod.split)
  have t: "drop_bit 22 w0 AND 0xff = 0x74 \<Longrightarrow>
      words_out (gpsd_interpret_subframe_raw P L V c svid (words[0 := w0 XOR 0x3fffffff])) =
      words_out (gpsd_interpret_subframe_raw P L V c svid (words[0 := w0]))
    \<and> tl (reports (gpsd_interpret_subframe_raw P L V c svid (words[0 := w0 XOR 0x3fffffff]))) =
      tl (reports (gpsd_interpret_subframe_raw P L V c svid (words[0 := w0])))"
    using raw_word0_inverted [OF len, of w0 P L V c svid] by simp
  show ?thesis
    using r t raw_ctx_inverted [OF len] sub_ctx_inverted [OF len] by simp
qed

theorem inverted_word0_same_decode_witness:
  "ctx (gpsd_interpret_subframe_raw (\<lambda>w. drop_bit 24 w AND 0x3f) 15 1
        \<lparr>valid = 0, leap_seconds = 15, gps_week = 0\<rparr> 7
        [0x22FFFFFF, 0x00000100, 0x10000010, 0, 0, 0, 0, 0, 0, 0]) =
   ctx (gpsd_interpret_subframe_raw (\<lambda>w. drop_bit 24 w AND 0x3f) 15 1
        \<lparr>valid = 0, leap_seconds = 15, gps_week = 0\<rparr> 7
        [0x1D000000, 0x00000100, 0x10000010, 0, 0, 0, 0, 0, 0, 0])
   \<and> gps_week (ctx (gpsd_interpret_subframe_raw (\<lambda>w. drop_bit 24 w AND 0x3f) 15 1
        \<lparr>valid = 0, leap_seconds = 15, gps_week = 0\<rparr> 7
        [0x22FFFFFF, 0x00000100, 0x10000010, 0, 0, 0, 0, 0, 0, 0])) = 256"
proof -
  let ?ws = "[0x1D000000, 0x00000100, 0x10000010, 0, 0, 0, 0, 0, 0, 0] :: u32 list"
  have len: "length ?ws = 10" by simp
  have e: "gps_week (ctx (gpsd_interpret_subframe_raw (\<lambda>w. drop_bit 24 w AND 0x3f) 15 1
        \<lparr>valid = 0, leap_seconds = 15, gps_week = 0\<rparr> 7 ?ws)) = 256"
    by (simp add: gpsd_interpret_subframe_raw_def gpsd_interpret_subframe_def subframe1_def
        uninvert_def Let_def upt_rec)
  from inverted_word0_same_decode [OF len, of "\<lambda>w. drop_bit 24 w AND 0x3f" 15 1
      "\<lparr>valid = 0, leap_seconds = 15, gps_week = 0\<rparr>" 7 "0x1D000000"] e
  show ?thesis by simp
qed

text \<open>
  Claim C10. \<open>gpsd_interpret_subframe_raw\<close> returns 0 on every path: after the bad
  preamble, after a parity failure and after the subframe has been interpreted.
\<close>

theorem raw_retval_zero:
  "retval (gpsd_interpret_subframe_raw isgps_parity LEAP_SECONDS LEAP_SECOND_VALID c svid words) = 0"
  by (simp add: gpsd_interpret_subframe_raw_def Let_def split: sum.split prod.split)

section \<open>Properties of the protocol unpacker\<close>

subsection \<open>What the loops keep\<close>














subsection \<open>A fragment whose value does not convert\<close>

lemma drop_eq_ConsD:
  assumes "drop n xs = a # r"
  shows "n < length xs \<and> xs ! n = a \<and> drop (Suc n) xs = r"
proof -
  have n: "n < length xs"
  proof (rule ccontr)
    assume "\<not> n < length xs"
    then have "drop n xs = []" by simp
    with assms show False by simp
  qed
  from Cons_nth_drop_Suc [OF n] assms show ?thesis using n by simp
qed

lemma cstr_two:
  assumes "cstr buf sp = a # b # v"
  shows "buf ! sp = a \<and> cstr buf (sp + 2) = v
       \<and> rd buf (sp + 2) = Some (case v of [] \<Rightarrow> NUL | x # xs \<Rightarrow> x)"
proof -
  define r where "r = drop sp buf"
  from assms have tw: "takeWhile (\<lambda>x. x \<noteq> NUL) r = a # b # v"
    by (simp add: cstr_def r_def)
  then obtain r1 where r1: "r = a # r1" "takeWhile (\<lambda>x. x \<noteq> NUL) r1 = b # v"
    by (cases r) (auto split: if_splits)
  then obtain r2 where r2: "r1 = b # r2" "takeWhile (\<lambda>x. x \<noteq> NUL) r2 = v"
    by (cases r1) (auto split: if_splits)
  have d: "drop sp buf = a # b # r2" using r1 r2 by (simp add: r_def)
  from drop_eq_ConsD [OF d] have a: "buf ! sp = a" and d1: "drop (Suc sp) buf = b # r2"
    by simp_all
  from drop_eq_ConsD [OF d1] have lt: "Suc sp < length buf" and d2: "drop (sp + 2) buf = r2"
    by simp_all
  have c: "cstr buf (sp + 2) = v" using d2 r2 by (simp add: cstr_def)
  have "rd buf (sp + 2) = Some (case v of [] \<Rightarrow> NUL | x # xs \<Rightarrow> x)"
  proof (cases r2)
    case Nil
    with d2 lt have "sp + 2 = length buf" by simp
    moreover from Nil r2 have "v = []" by simp
    ultimately show ?thesis by (simp add: rd_def)
  next
    case (Cons y ys)
    with d2 have "drop (sp + 2) buf = y # ys" by simp
    from drop_eq_ConsD [OF this] have lt2: "sp + 2 < length buf" and y: "buf ! (sp + 2) = y"
      by simp_all
    from Cons r2 have "(case v of [] \<Rightarrow> NUL | x # xs \<Rightarrow> x) = y"
      by (auto split: if_splits)
    with lt2 y show ?thesis by (simp add: rd_def)
  qed
  with a c show ?thesis by simp
qed

lemma scan_run_fail: "conv s = None \<Longrightarrow> 0 < n \<Longrightarrow> fst (scan_run conv n s) = []"
  by (cases n) auto

lemma failed_A:
  assumes "buf ! sp = CHR ''A''" "cstr buf sp = CHR ''A'' # CHR ''='' # v" "scan_lf v = None"
  shows "\<exists>st'. unpack_fragment MAXCHANNELS scan_lf buf sp st = Inr st' \<and> gpsdata st' = gpsdata st"
  using assms by (simp add: unpack_fragment_def Let_def lf_after_def stored_def scan_run_fail)

lemma failed_E:
  assumes "buf ! sp = CHR ''E''" "cstr buf sp = CHR ''E'' # CHR ''='' # v" "scan_lf v = None"
  shows "\<exists>st'. unpack_fragment MAXCHANNELS scan_lf buf sp st = Inr st' \<and> gpsdata st' = gpsdata st"
  using assms by (simp add: unpack_fragment_def Let_def lf_after_def stored_def scan_run_fail)

lemma failed_P:
  assumes "buf ! sp = CHR ''P''" "cstr buf sp = CHR ''P'' # CHR ''='' # v" "scan_lf v = None"
  shows "\<exists>st'. unpack_fragment MAXCHANNELS scan_lf buf sp st = Inr st' \<and> gpsdata st' = gpsdata st"
  using assms by (simp add: unpack_fragment_def Let_def lf_after_def stored_def scan_run_fail)

lemma failed_T:
  assumes "buf ! sp = CHR ''T''" "cstr buf sp = CHR ''T'' # CHR ''='' # v" "scan_lf v = None"
  shows "\<exists>st'. unpack_fragment MAXCHANNELS scan_lf buf sp st = Inr st' \<and> gpsdata st' = gpsdata st"
  using assms by (simp add: unpack_fragment_def Let_def lf_after_def stored_def scan_run_fail)

lemma failed_U:
  assumes "buf ! sp = CHR ''U''" "cstr buf sp = CHR ''U'' # CHR ''='' # v" "scan_lf v = None"
  shows "\<exists>st'. unpack_fragment MAXCHANNELS scan_lf buf sp st = Inr st' \<and> gpsdata st' = gpsdata st"
  using assms by (simp add: unpack_fragment_def Let_def lf_after_def stored_def scan_run_fail)

lemma failed_V:
  assumes "buf ! sp = CHR ''V''" "cstr buf sp = CHR ''V'' # CHR ''='' # v" "scan_lf v = None"
  shows "\<exists>st'. unpack_fragment MAXCHANNELS scan_lf buf sp st = Inr st' \<and> gpsdata st' = gpsdata st"
  using assms by (simp add: unpack_fragment_def Let_def lf_after_def stored_def scan_run_fail)

lemma failed_B:
  assumes "buf ! sp = CHR ''B''" "cstr buf sp = CHR ''B'' # CHR ''='' # v" "scan_d v = None"
  shows "\<exists>st'. unpack_fragment MAXCHANNELS scan_lf buf sp st = Inr st' \<and> gpsdata st' = gpsdata st"
  using assms by (simp add: unpack_fragment_def Let_def scan_B_def stored_def)

lemma failed_C:
  assumes "buf ! sp = CHR ''C''" "cstr buf sp = CHR ''C'' # CHR ''='' # v" "scan_d v = None"
  shows "\<exists>st'. unpack_fragment MAXCHANNELS scan_lf buf sp st = Inr st' \<and> gpsdata st' = gpsdata st"
  using assms by (simp add: unpack_fragment_def Let_def d_after_def stored_def scan_run_fail)

lemma failed_Q:
  assumes "buf ! sp = CHR ''Q''" "cstr buf sp = CHR ''Q'' # CHR ''='' # v" "scan_d v = None"
  shows "\<exists>st'. unpack_fragment MAXCHANNELS scan_lf buf sp st = Inr st' \<and> gpsdata st' = gpsdata st"
  using assms by (simp add: unpack_fragment_def Let_def scan_Q_def stored_def scan_run_fail)

lemma failed_Z:
  assumes "buf ! sp = CHR ''Z''" "cstr buf sp = CHR ''Z'' # CHR ''='' # v" "scan_d v = None"
  shows "\<exists>st'. unpack_fragment MAXCHANNELS scan_lf buf sp st = Inr st' \<and> gpsdata st' = gpsdata st"
  using assms by (simp add: unpack_fragment_def Let_def d_after_def stored_def scan_run_fail)

lemma failed_sscanf:
  assumes c: "buf ! sp = c" and s: "cstr buf sp = c # CHR ''='' # v"
    and f: "(c \<in> {CHR ''A'', CHR ''E'', CHR ''P'', CHR ''T'', CHR ''U'', CHR ''V''} \<and> scan_lf v = None)
       \<or> (c \<in> {CHR ''B'', CHR ''C'', CHR ''Q'', CHR ''Z''} \<and> scan_d v = None)"
  shows "\<exists>st'. unpack_fragment MAXCHANNELS scan_lf buf sp st = Inr st' \<and> gpsdata st' = gpsdata st"
  using f
proof (elim disjE conjE insertE emptyE)
  assume "c = CHR ''A''" "scan_lf v = None"
  with c s show ?thesis by (simp add: failed_A)
next
  assume "c = CHR ''E''" "scan_lf v = None"
  with c s show ?thesis by (simp add: failed_E)
next
  assume "c = CHR ''P''" "scan_lf v = None"
  with c s show ?thesis by (simp add: failed_P)
next
  assume "c = CHR ''T''" "scan_lf v = None"
  with c s show ?thesis by (simp add: failed_T)
next
  assume "c = CHR ''U''" "scan_lf v = None"
  with c s show ?thesis by (simp add: failed_U)
next
  assume "c = CHR ''V''" "scan_lf v = None"
  with c s show ?thesis by (simp add: failed_V)
next
  assume "c = CHR ''B''" "scan_d v = None"
  with c s show ?thesis by (simp add: failed_B)
next
  assume "c = CHR ''C''" "scan_d v = None"
  with c s show ?thesis by (simp add: failed_C)
next
  assume "c = CHR ''Q''" "scan_d v = None"
  with c s show ?thesis by (simp add: failed_Q)
next
  assume "c = CHR ''Z''" "scan_d v = None"
  with c s show ?thesis by (simp add: failed_Z)
qed

lemma failed_M:
  assumes "buf ! sp = CHR ''M''" "cstr buf (sp + 2) = v" "scan_d v = None"
  shows "\<exists>st'. unpack_fragment MAXCHANNELS scan_lf buf sp st = Inr st' \<and>
            gpsdata st' = (gpsdata st)\<lparr>fix' := (fix' (gpsdata st))\<lparr>mode := 0\<rparr>\<rparr>"
  using assms by (simp add: unpack_fragment_def Let_def atoi_def)

lemma failed_N:
  assumes "buf ! sp = CHR ''N''" "cstr buf (sp + 2) = v" "scan_d v = None"
  shows "\<exists>st'. unpack_fragment MAXCHANNELS scan_lf buf sp st = Inr st' \<and>
            gpsdata st' = (gpsdata st)\<lparr>driver_mode := 0\<rparr>"
  using assms by (simp add: unpack_fragment_def Let_def atoi_def)

lemma failed_S:
  assumes "buf ! sp = CHR ''S''" "cstr buf (sp + 2) = v" "scan_d v = None"
  shows "\<exists>st'. unpack_fragment MAXCHANNELS scan_lf buf sp st = Inr st' \<and>
            gpsdata st' = (gpsdata st)\<lparr>status := 0\<rparr>"
  using assms by (simp add: unpack_fragment_def Let_def atoi_def)

lemma failed_Y:
  assumes "buf ! sp = CHR ''Y''" "cstr buf (sp + 2) = v" "scan_d v = None"
  shows "\<exists>st'. unpack_fragment MAXCHANNELS scan_lf buf sp st = Inr st' \<and>
            gpsdata st' = (gpsdata st)\<lparr>satellites := 0\<rparr>"
  using assms by (simp add: unpack_fragment_def Let_def atoi_def unpack_Y_def)

lemma fragments_step:
  assumes tp: "next_terminator buf sp = Some tp"
    and rd: "rd (buf[tp := NUL]) (sp + 2) = Some x"
  shows "fragments MAXCHANNELS scan_lf buf sp st =
          (if x = CHR ''?'' then fragments MAXCHANNELS scan_lf (buf[tp := NUL]) (tp + 1) st
           else (case unpack_fragment MAXCHANNELS scan_lf (buf[tp := NUL]) sp st of
                   Inl e \<Rightarrow> Inl e
                 | Inr st' \<Rightarrow> fragments MAXCHANNELS scan_lf (buf[tp := NUL]) (tp + 1) st'))"
proof -
  from next_terminator_bounds [OF tp] have le: "\<not> length buf < sp" by simp
  show ?thesis
    unfolding fragments.simps [of MAXCHANNELS scan_lf buf sp st]
    by (simp only: le tp rd if_False option.case)
qed

lemma fragments_continue:
  assumes tp: "next_terminator buf sp = Some tp"
    and rd: "rd (buf[tp := NUL]) (sp + 2) = Some x" "x \<noteq> CHR ''?''"
    and u: "\<exists>st'. unpack_fragment MAXCHANNELS scan_lf (buf[tp := NUL]) sp st = Inr st' \<and> gpsdata st' = g"
  shows "\<exists>st'. gpsdata st' = g \<and>
           fragments MAXCHANNELS scan_lf buf sp st =
           fragments MAXCHANNELS scan_lf (buf[tp := NUL]) (tp + 1) st'"
proof -
  from u obtain st' where
    "unpack_fragment MAXCHANNELS scan_lf (buf[tp := NUL]) sp st = Inr st'" "gpsdata st' = g"
    by blast
  with fragments_step [OF tp rd(1), of MAXCHANNELS scan_lf st] rd(2) show ?thesis
    by auto
qed

subsection \<open>A satellite count above the size of the arrays\<close>

lemma zero_loop_overflow:
  "i \<le> m \<Longrightarrow> m < n \<Longrightarrow> for_each [i..<n] (\<lambda>j. store_row m j vs) a = Inl Array_overflow"
proof (induction "m - i" arbitrary: i a)
  case 0
  then have "i = m" by simp
  with 0 have "[i..<n] = m # [Suc m..<n]" by (simp add: upt_conv_Cons)
  then show ?case by (simp add: store_row_def)
next
  case (Suc d)
  then have lt: "i < m" by simp
  with Suc have "[i..<n] = i # [Suc i..<n]" by (simp add: upt_conv_Cons)
  moreover have "\<exists>a'. store_row m i vs a = Inr a'" using lt by (simp add: store_row_def)
  moreover have "\<And>a'. for_each [Suc i..<n] (\<lambda>j. store_row m j vs) a' = Inl Array_overflow"
    using Suc.hyps(1) [of "Suc i"] Suc.hyps(2) Suc.prems lt by simp
  ultimately show ?case by auto
qed

lemma unpack_Y_overflow:
  assumes "int MAXCHANNELS < atoi (cstr buf (sp + 2))"
  shows "unpack_Y MAXCHANNELS buf sp g = Inl Array_overflow"
proof -
  from assms have "MAXCHANNELS < nat (atoi (cstr buf (sp + 2)))" by simp
  from zero_loop_overflow [OF le0 this] assms show ?thesis
    by (simp add: unpack_Y_def Let_def)
qed

subsection \<open>The claims on the protocol unpacker\<close>

text \<open>
  The theorems on concrete buffers take 12 for \<open>MAXCHANNELS\<close> and \<open>scan_d\<close> for the
  conversion \<open>%lf\<close> (so a double is an integer there); the theorems with variables hold
  for every channel count and every conversion. The session is the one of
  \<open>calloc_gps_data\<close> with the fields named set.
\<close>

text \<open>
  The claim C2 as the specification states it fails: with status 1 stored, the fragment
  \<open>S=x\<close> (no number) sets the status to 0 and sets the bit of the status in the value
  returned.
\<close>

theorem failed_parse_fragment_counterexample:
  "map_sum id (\<lambda>r. (status (session r), returned r))
     (gps_unpack 12 scan_d (''GPSD,S=x'' @ [CR, CHR 0x0A])
        ((calloc_gps_data 12 (0::int))\<lparr>status := 1\<rparr>)) = Inr (0, {STATUS_SET})
   \<and> scan_d ''x'' = None"
  by code_simp

text \<open>
  Claim C2, as amended. Let the fragment at \<open>sp\<close>, ended at \<open>tp\<close>, read \<open>c=v\<close>
  where \<open>v\<close> does not convert to a number. When the tag is one that \<open>sscanf\<close> converts
  (A, E, P, T, U, V with \<open>%lf\<close>; B, C, Q, Z with \<open>%d\<close>), the loop goes on behind
  \<open>tp\<close> with every field of the session as it was. When the tag is one that \<open>atoi\<close>
  converts (M, N, S, Y) and \<open>v\<close> does not start with the placeholder \<open>?\<close>, the loop goes
  on with the field set to 0. The change bits are left out of the statement.
\<close>

theorem failed_parse_fragment:
  assumes tp: "next_terminator buf sp = Some tp"
    and frag: "cstr (buf[tp := NUL]) sp = c # CHR ''='' # v"
  shows "((c \<in> {CHR ''A'', CHR ''E'', CHR ''P'', CHR ''T'', CHR ''U'', CHR ''V''} \<and> scan_lf v = None)
          \<or> (c \<in> {CHR ''B'', CHR ''C'', CHR ''Q'', CHR ''Z''} \<and> scan_d v = None) \<longrightarrow>
          (\<exists>st'. gpsdata st' = gpsdata st \<and>
             fragments MAXCHANNELS scan_lf buf sp st =
             fragments MAXCHANNELS scan_lf (buf[tp := NUL]) (tp + 1) st'))
       \<and> (scan_d v = None \<and> take 1 v \<noteq> ''?'' \<longrightarrow>
            (c = CHR ''M'' \<longrightarrow>
              (\<exists>st'. gpsdata st' = (gpsdata st)\<lparr>fix' := (fix' (gpsdata st))\<lparr>mode := 0\<rparr>\<rparr> \<and>
                 fragments MAXCHANNELS scan_lf buf sp st =
                 fragments MAXCHANNELS scan_lf (buf[tp := NUL]) (tp + 1) st'))
          \<and> (c = CHR ''N'' \<longrightarrow>
              (\<exists>st'. gpsdata st' = (gpsdata st)\<lparr>driver_mode := 0\<rparr> \<and>
                 fragments MAXCHANNELS scan_lf buf sp st =
                 fragments MAXCHANNELS scan_lf (buf[tp := NUL]) (tp + 1) st'))
          \<and> (c = CHR ''S'' \<longrightarrow>
              (\<exists>st'. gpsdata st' = (gpsdata st)\<lparr>status := 0\<rparr> \<and>
                 fragments MAXCHANNELS scan_lf buf sp st =
                 fragments MAXCHANNELS scan_lf (buf[tp := NUL]) (tp + 1) st'))
          \<and> (c = CHR ''Y'' \<longrightarrow>
              (\<exists>st'. gpsdata st' = (gpsdata st)\<lparr>satellites := 0\<rparr> \<and>
                 fragments MAXCHANNELS scan_lf buf sp st =
                 fragments MAXCHANNELS scan_lf (buf[tp := NUL]) (tp + 1) st')))"
proof -
  define x where "x = (case v of [] \<Rightarrow> NUL | y # ys \<Rightarrow> y)"
  from cstr_two [OF frag] have c: "buf[tp := NUL] ! sp = c"
    and s2: "cstr (buf[tp := NUL]) (sp + 2) = v"
    and rd: "rd (buf[tp := NUL]) (sp + 2) = Some x"
    by (simp_all add: x_def)
  have q: "take 1 v \<noteq> ''?'' \<Longrightarrow> x \<noteq> CHR ''?''"
    by (cases v) (simp_all add: x_def)
  have 1: "\<exists>st'. gpsdata st' = gpsdata st \<and>
             fragments MAXCHANNELS scan_lf buf sp st =
             fragments MAXCHANNELS scan_lf (buf[tp := NUL]) (tp + 1) st'"
    if f: "(c \<in> {CHR ''A'', CHR ''E'', CHR ''P'', CHR ''T'', CHR ''U'', CHR ''V''} \<and> scan_lf v = None)
          \<or> (c \<in> {CHR ''B'', CHR ''C'', CHR ''Q'', CHR ''Z''} \<and> scan_d v = None)"
  proof (cases "x = CHR ''?''")
    case True
    with fragments_step [OF tp rd, of MAXCHANNELS scan_lf st] show ?thesis by auto
  next
    case False
    have "\<exists>st'. unpack_fragment MAXCHANNELS scan_lf (buf[tp := NUL]) sp st = Inr st' \<and>
            gpsdata st' = gpsdata st"
      using c frag f by (rule failed_sscanf)
    from fragments_continue [OF tp rd False this] show ?thesis .
  qed
  have 2: "\<exists>st'. gpsdata st' = (gpsdata st)\<lparr>fix' := (fix' (gpsdata st))\<lparr>mode := 0\<rparr>\<rparr> \<and>
             fragments MAXCHANNELS scan_lf buf sp st =
             fragments MAXCHANNELS scan_lf (buf[tp := NUL]) (tp + 1) st'"
    if "scan_d v = None" "take 1 v \<noteq> ''?''" "c = CHR ''M''"
  proof -
    have "\<exists>st'. unpack_fragment MAXCHANNELS scan_lf (buf[tp := NUL]) sp st = Inr st' \<and>
            gpsdata st' = (gpsdata st)\<lparr>fix' := (fix' (gpsdata st))\<lparr>mode := 0\<rparr>\<rparr>"
      using c s2 that by (intro failed_M) simp_all
    from fragments_continue [OF tp rd q [OF that(2)] this] show ?thesis .
  qed
  have 3: "\<exists>st'. gpsdata st' = (gpsdata st)\<lparr>driver_mode := 0\<rparr> \<and>
             fragments MAXCHANNELS scan_lf buf sp st =
             fragments MAXCHANNELS scan_lf (buf[tp := NUL]) (tp + 1) st'"
    if "scan_d v = None" "take 1 v \<noteq> ''?''" "c = CHR ''N''"
  proof -
    have "\<exists>st'. unpack_fragment MAXCHANNELS scan_lf (buf[tp := NUL]) sp st = Inr st' \<and>
            gpsdata st' = (gpsdata st)\<lparr>driver_mode := 0\<rparr>"
      using c s2 that by (intro failed_N) simp_all
    from fragments_continue [OF tp rd q [OF that(2)] this] show ?thesis .
  qed
  have 4: "\<exists>st'. gpsdata st' = (gpsdata st)\<lparr>status := 0\<rparr> \<and>
             fragments MAXCHANNELS scan_lf buf sp st =
             fragments MAXCHANNELS scan_lf (buf[tp := NUL]) (tp + 1) st'"
    if "scan_d v = None" "take 1 v \<noteq> ''?''" "c = CHR ''S''"
  proof -
    have "\<exists>st'. unpack_fragment MAXCHANNELS scan_lf (buf[tp := NUL]) sp st = Inr st' \<and>
            gpsdata st' = (gpsdata st)\<lparr>status := 0\<rparr>"
      using c s2 that by (intro failed_S) simp_all
    from fragments_continue [OF tp rd q [OF that(2)] this] show ?thesis .
  qed
  have 5: "\<exists>st'. gpsdata st' = (gpsdata st)\<lparr>satellites := 0\<rparr> \<and>
             fragments MAXCHANNELS scan_lf buf sp st =
             fragments MAXCHANNELS scan_lf (buf[tp := NUL]) (tp + 1) st'"
    if "scan_d v = None" "take 1 v \<noteq> ''?''" "c = CHR ''Y''"
  proof -
    have "\<exists>st'. unpack_fragment MAXCHANNELS scan_lf (buf[tp := NUL]) sp st = Inr st' \<and>
            gpsdata st' = (gpsdata st)\<lparr>satellites := 0\<rparr>"
      using c s2 that by (intro failed_Y) simp_all
    from fragments_continue [OF tp rd q [OF that(2)] this] show ?thesis .
  qed
  show ?thesis
    by (intro conjI impI; (elim conjE)?; rule 1 2 3 4 5; assumption)
qed

theorem failed_parse_fragment_witness:
  "(\<exists>st'. gpsdata st' = (calloc_gps_data 12 (0::int))\<lparr>epe := 7\<rparr> \<and>
      fragments 12 scan_d (''GPSD,E=abc,S=1'' @ [CR, CHR 0x0A]) 5
        \<lparr>gpsdata = (calloc_gps_data 12 (0::int))\<lparr>epe := 7\<rparr>, changed = {}, freed = []\<rparr> =
      fragments 12 scan_d ((''GPSD,E=abc,S=1'' @ [CR, CHR 0x0A])[10 := NUL]) (10 + 1) st')
   \<and> map_sum id (\<lambda>r. (epe (session r), status (session r)))
        (gps_unpack 12 scan_d (''GPSD,E=abc,S=1'' @ [CR, CHR 0x0A])
          ((calloc_gps_data 12 (0::int))\<lparr>epe := 7\<rparr>)) = Inr (7, 1)"
proof -
  let ?buf = "''GPSD,E=abc,S=1'' @ [CR, CHR 0x0A]"
  have tp: "next_terminator ?buf 5 = Some 10" by code_simp
  have frag: "cstr (?buf[10 := NUL]) 5 = CHR ''E'' # CHR ''='' # ''abc''" by code_simp
  have f: "(CHR ''E'' \<in> {CHR ''A'', CHR ''E'', CHR ''P'', CHR ''T'', CHR ''U'', CHR ''V''} \<and>
            scan_d ''abc'' = None)
          \<or> (CHR ''E'' \<in> {CHR ''B'', CHR ''C'', CHR ''Q'', CHR ''Z''} \<and> scan_d ''abc'' = None)"
    by code_simp
  have e: "map_sum id (\<lambda>r. (epe (session r), status (session r)))
        (gps_unpack 12 scan_d ?buf ((calloc_gps_data 12 (0::int))\<lparr>epe := 7\<rparr>)) = Inr (7, 1)"
    by code_simp
  from failed_parse_fragment [OF tp frag, of scan_d
      "\<lparr>gpsdata = (calloc_gps_data 12 (0::int))\<lparr>epe := 7\<rparr>, changed = {}, freed = []\<rparr>" 12] f e
  show ?thesis by simp
qed

text \<open>
  Claim C3: the code at the failing input. A first call with \<open>GPSD,M=3,S=1\<close> stores
  mode 3 and status 1. A second call with the same bytes leaves the session exactly as it
  was and still returns the bits of the mode and of the status, where the claim (and the
  comment above the function, \<open>return: 0, no changes\<close>) asks for the empty mask.
\<close>

theorem second_call_mask_not_empty:
  "map_sum id session
     (gps_unpack 12 scan_d (''GPSD,M=3,S=1'' @ [CR, CHR 0x0A]) (calloc_gps_data 12 (0::int))) =
     Inr ((calloc_gps_data 12 0)
            \<lparr>fix' := (fix' (calloc_gps_data 12 0))\<lparr>mode := 3\<rparr>, status := 1\<rparr>)
   \<and> map_sum id (\<lambda>r. (session r, returned r))
     (gps_unpack 12 scan_d (''GPSD,M=3,S=1'' @ [CR, CHR 0x0A])
        ((calloc_gps_data 12 (0::int))
            \<lparr>fix' := (fix' (calloc_gps_data 12 0))\<lparr>mode := 3\<rparr>, status := 1\<rparr>)) =
     Inr ((calloc_gps_data 12 0)
            \<lparr>fix' := (fix' (calloc_gps_data 12 0))\<lparr>mode := 3\<rparr>, status := 1\<rparr>,
          {MODE_SET, STATUS_SET})"
  by code_simp




text \<open>
  Claim C6: the code at the failing input. \<open>case 'I'\<close> has no \<open>break\<close> and falls
  through to \<open>case 'M'\<close>: with mode 3 and the identifier \<open>old\<close> stored, the fragment
  \<open>I=SiRF\<close> frees \<open>old\<close> and stores \<open>SiRF\<close>, and also sets the mode to
  0, the value of \<open>atoi\<close> on \<open>SiRF\<close>, and the bit of the mode in the value returned.
\<close>

theorem device_id_falls_through:
  "map_sum id (\<lambda>r. (gps_id (session r), freed_strings r, mode (fix' (session r)), returned r))
     (gps_unpack 12 scan_d (''GPSD,I=SiRF'' @ [CR, CHR 0x0A])
        ((calloc_gps_data 12 (0::int))
            \<lparr>fix' := (fix' (calloc_gps_data 12 0))\<lparr>mode := 3\<rparr>, gps_id := Some ''old''\<rparr>)) =
     Inr (Some ''SiRF'', [''old''], 0, {MODE_SET})"
  by code_simp

text \<open>
  Claim C9: the code at the failing input. With arrays of 12 channels, a sentence that
  announces 13 satellites makes the first loop write index 12 of the local arrays, behind
  their end; a sentence that announces 3 satellites and holds 2 groups makes \<open>strchr\<close>
  return the null pointer, which is incremented and read.
\<close>

theorem satellite_table_overflow:
  "gps_unpack 12 scan_d
     (''GPSD,Y=13:1 10 20 30 1:2 10 20 30 1:3 10 20 30 1:4 10 20 30 1:5 10 20 30 1:6 10 20 30 1:7 10 20 30 0:8 10 20 30 0:9 10 20 30 0:10 10 20 30 0:11 10 20 30 0:12 10 20 30 0:13 10 20 30 0:''
        @ [CR, CHR 0x0A])
     (calloc_gps_data 12 (0::int)) = Inl Array_overflow
   \<and> gps_unpack 12 scan_d (''GPSD,Y=3:1 10 20 30 1:2 10 20 30 1'' @ [CR, CHR 0x0A])
     (calloc_gps_data 12 (0::int)) = Inl Null_pointer"
  by code_simp

end
